theory Spec2Isabelle
  imports Complex_Main "HOL-Library.AList"
begin

section \<open>JavaScript values\<close>

text \<open>
  The values that travel through the program are JSON values: the records of the storage
  file, the metadata handed to \<open>saveAddress\<close>, the bodies of the provider's responses.
  An object is an association list of its own properties, in insertion order.
  \<open>JIso t\<close> stands for a string that \<open>Date\<close> parses as the instant \<open>t\<close> (milliseconds since
  the epoch), as \<open>toISOString\<close> produces one; \<open>JStr s\<close> is any other string, one that
  \<open>Date\<close> does not parse. A value that may be \<open>undefined\<close> is a \<open>json option\<close>, with
  \<open>None\<close> for \<open>undefined\<close>. Instants are unbounded integers: the range limit of \<open>Date\<close>
  (about 270000 years around the epoch) is not modelled.
\<close>

datatype json =
    JNull
  | JBool bool
  | JNum int
  | JStr string
  | JIso int
  | JArr "json list"
  | JObj "(string \<times> json) list"

type_synonym obj = "(string \<times> json) list"

text \<open>Reading an own property of an object: \<open>item.address\<close>; \<open>undefined\<close> when absent.\<close>

definition get_prop :: "obj \<Rightarrow> string \<Rightarrow> json option" where
  "get_prop item k = map_of item k"

text \<open>Assigning a property, \<open>o.k = v\<close> or a \<open>k: v\<close> entry of an object literal: an existing
  key keeps its place, a new key goes last.\<close>

definition assign :: "string \<Rightarrow> json \<Rightarrow> obj \<Rightarrow> obj" where
  "assign k v item = AList.update k v item"

text \<open>Object spread, \<open>{...base, ...ext}\<close>: the properties of \<open>ext\<close> are assigned onto
  \<open>base\<close> in their order.\<close>

definition spread :: "obj \<Rightarrow> obj \<Rightarrow> obj" where
  "spread base ext = fold (\<lambda>(k, v). assign k v) ext base"

text \<open>
  \<open>new Date(v)\<close> as an instant; \<open>None\<close> is the invalid date, whose time value is NaN.
  An array or an object is converted through its string form, which is taken as a string
  that \<open>Date\<close> does not parse. That is so of the empty array and of a plain object; an array
  of one element has the string form of that element, so this model is not exact for an
  \<open>expiresAt\<close> that is such an array. \<open>saveAddress\<close> always writes a date string there.
\<close>

fun date_of :: "json option \<Rightarrow> int option" where
  "date_of None = None"
| "date_of (Some (JIso t)) = Some t"
| "date_of (Some (JNum n)) = Some n"
| "date_of (Some JNull) = Some 0"
| "date_of (Some (JBool b)) = Some (if b then 1 else 0)"
| "date_of (Some (JStr s)) = None"
| "date_of (Some (JArr xs)) = None"
| "date_of (Some (JObj ps)) = None"

text \<open>\<open>d > now\<close> on dates compares the time values; every comparison with NaN is false.\<close>

definition date_after :: "int option \<Rightarrow> int \<Rightarrow> bool" where
  "date_after d now = (case d of None \<Rightarrow> False | Some t \<Rightarrow> now < t)"

text \<open>\<open>Array.prototype.findIndex\<close>: the index of the first element that satisfies the
  predicate; \<open>None\<close> stands for the result \<open>-1\<close>.\<close>

fun findIndex :: "('a \<Rightarrow> bool) \<Rightarrow> 'a list \<Rightarrow> nat option" where
  "findIndex P [] = None"
| "findIndex P (x # xs) = (if P x then Some 0 else map_option Suc (findIndex P xs))"

section \<open>StorageService\<close>

text \<open>
  The storage file is absent, or present but not readable as JSON, or it holds an array
  of records (an empty file reads as the empty array). A file that parses is taken to
  hold an array of objects, which is all the service ever writes. \<open>writable\<close> says whether
  \<open>fs.writeFile\<close> succeeds (the directory can be made, the disk accepts the bytes); the
  service never changes it.
\<close>

datatype file_state = Absent | Corrupt | Records "obj list"

record storage =
  storageFile :: file_state
  writable :: bool
  initialized :: bool
  expirationDays :: int

text \<open>\<open>_writeToFile\<close>: the whole collection replaces the file; a failure is caught and
  reported as \<open>false\<close>.\<close>

definition writeToFile :: "obj list \<Rightarrow> storage \<Rightarrow> bool \<times> storage" where
  "writeToFile addresses s =
     (if writable s then (True, s\<lparr>storageFile := Records addresses\<rparr>) else (False, s))"

text \<open>\<open>_initialize\<close>: when the file cannot be accessed (or its directory cannot be made) the
  empty array is written; a file that exists is left as it is.\<close>

definition initialize :: "storage \<Rightarrow> storage" where
  "initialize s =
     (let s1 = (case storageFile s of Absent \<Rightarrow> snd (writeToFile [] s) | _ \<Rightarrow> s)
      in s1\<lparr>initialized := True\<rparr>)"

text \<open>\<open>_readFromFile\<close>: initialises on first use; a read or parse error gives \<open>[]\<close>.\<close>

definition readFromFile :: "storage \<Rightarrow> obj list \<times> storage" where
  "readFromFile s =
     (let s1 = (if \<not> initialized s then initialize s else s)
      in (case storageFile s1 of Records addresses \<Rightarrow> addresses | _ \<Rightarrow> [], s1))"

text \<open>
  The time zone of the host, as \<open>Date\<close> sees it: \<open>utc_offset tz t\<close> is the offset of local
  time from UTC in force at the instant \<open>t\<close>, and \<open>local_offset tz l\<close> the offset in force at
  the local time \<open>l\<close> (the LocalTZA of ECMAScript, asked with a UTC and with a local time).
  Where daylight saving changes the offset the two differ.
\<close>

record timezone =
  utc_offset :: "int \<Rightarrow> int"
  local_offset :: "int \<Rightarrow> int"

definition ms_per_day :: int where
  "ms_per_day = 86400000"

text \<open>
  \<open>d.setDate(d.getDate() + n)\<close> on the date of the instant \<open>t\<close>: the date is read and set in
  local time, so the local time moves by \<open>n\<close> calendar days at the same time of day and is
  then taken back to UTC with the offset in force there.
\<close>

definition setDate_plus :: "timezone \<Rightarrow> int \<Rightarrow> int \<Rightarrow> int" where
  "setDate_plus tz t n =
     (let local = t + utc_offset tz t;
          moved = local + n * ms_per_day
      in moved - local_offset tz moved)"

text \<open>The expiration window as a duration: \<open>expirationDays\<close> days of 24 hours.\<close>

definition expirationWindow :: "storage \<Rightarrow> int" where
  "expirationWindow s = expirationDays s * ms_per_day"

definition has_address :: "string \<Rightarrow> obj \<Rightarrow> bool" where
  "has_address address item = (get_prop item ''address'' = Some (JStr address))"

text \<open>
  \<open>saveAddress(address, metadata)\<close>, on a host in the time zone \<open>tz\<close>. \<open>now\<close> is the reading
  of the clock; the readings that one call takes (\<open>new Date()\<close> for each timestamp) are the
  same instant.
\<close>

definition addressData :: "int \<Rightarrow> int \<Rightarrow> string \<Rightarrow> obj \<Rightarrow> obj" where
  "addressData now expiresAt address metadata =
     assign ''updatedAt'' (JIso now)
       (assign ''expiresAt'' (JIso expiresAt)
          (spread [(''address'', JStr address)] metadata))"

definition saveAddress ::
  "timezone \<Rightarrow> int \<Rightarrow> string \<Rightarrow> obj \<Rightarrow> storage \<Rightarrow> bool \<times> storage" where
  "saveAddress tz now address metadata s =
     (let (addresses, s1) = readFromFile s;
          expiresAt = setDate_plus tz now (expirationDays s1);
          existingIndex = findIndex (has_address address) addresses;
          data = addressData now expiresAt address metadata
      in case existingIndex of
           Some i \<Rightarrow> writeToFile (addresses[i := spread (addresses ! i) data]) s1
         | None \<Rightarrow> writeToFile (addresses @ [assign ''createdAt'' (JIso now) data]) s1)"

text \<open>\<open>getAddresses(includeExpired)\<close>, called at the instant \<open>now\<close>.\<close>

definition not_expired :: "int \<Rightarrow> obj \<Rightarrow> bool" where
  "not_expired now item = date_after (date_of (get_prop item ''expiresAt'')) now"

definition getAddresses :: "bool \<Rightarrow> int \<Rightarrow> storage \<Rightarrow> obj list \<times> storage" where
  "getAddresses includeExpired now s =
     (let (addresses, s1) = readFromFile s
      in if includeExpired then (addresses, s1)
         else (filter (not_expired now) addresses, s1))"

text \<open>\<open>cleanupExpired()\<close>, called at the instant \<open>now\<close>; the result of the write is not
  looked at.\<close>

definition cleanupExpired :: "int \<Rightarrow> storage \<Rightarrow> nat \<times> storage" where
  "cleanupExpired now s =
     (let (addresses, s1) = readFromFile s;
          validAddresses = filter (not_expired now) addresses;
          removedCount = length addresses - length validAddresses
      in if removedCount > 0 then (removedCount, snd (writeToFile validAddresses s1))
         else (removedCount, s1))"

section \<open>EmailService\<close>

subsection \<open>Errors and the reading of values\<close>

text \<open>
  A thrown error: its \<open>message\<close>, and the status of \<open>error.response\<close> when the error
  carries a response (axios rejects with one on a status outside 2xx); \<open>None\<close> when
  \<open>error.response\<close> is undefined, as for a transport failure or a plain \<open>new Error(...)\<close>.
\<close>

record err =
  message :: string
  status :: "nat option"

definition Error :: "string \<Rightarrow> err" where
  "Error msg = \<lparr>message = msg, status = None\<rparr>"

text \<open>The decimal rendering of a number in a template string.\<close>

function show_nat :: "nat \<Rightarrow> string" where
  "show_nat n = (if n < 10 then [char_of (48 + n)] else show_nat (n div 10) @ [char_of (48 + n mod 10)])"
  by pat_completeness auto
termination
  by (relation "measure id") auto

text \<open>Truthiness of a value, as \<open>!v\<close>, \<open>a && b\<close> and \<open>a || b\<close> test it.\<close>

fun truthy :: "json option \<Rightarrow> bool" where
  "truthy None = False"
| "truthy (Some JNull) = False"
| "truthy (Some (JBool b)) = b"
| "truthy (Some (JNum n)) = (n \<noteq> 0)"
| "truthy (Some (JStr s)) = (s \<noteq> [])"
| "truthy (Some (JIso t)) = True"
| "truthy (Some (JArr xs)) = True"
| "truthy (Some (JObj ps)) = True"

text \<open>
  Reading a property, \<open>v.k\<close>: a TypeError on \<open>undefined\<close> and \<open>null\<close>, the own property of an
  object, and \<open>undefined\<close> on every other value (none of the names the service reads is a
  built-in property of a string, a number, a boolean or an array).
\<close>

definition type_error :: "string \<Rightarrow> string \<Rightarrow> err" where
  "type_error what k =
     Error (''Cannot read properties of '' @ what @ '' (reading '' @ [CHR 0x27] @ k @ [CHR 0x27] @ '')'')"

fun member :: "json option \<Rightarrow> string \<Rightarrow> err + json option" where
  "member None k = Inl (type_error ''undefined'' k)"
| "member (Some JNull) k = Inl (type_error ''null'' k)"
| "member (Some (JObj ps)) k = Inr (map_of ps k)"
| "member (Some v) k = Inr None"

text \<open>\<open>Array.isArray(v)\<close>, with the elements when it holds.\<close>

fun array_of :: "json option \<Rightarrow> json list option" where
  "array_of (Some (JArr xs)) = Some xs"
| "array_of v = None"

text \<open>\<open>x || d\<close> on a number that may be undefined: zero and \<open>undefined\<close> are falsy.\<close>

definition or_default :: "nat option \<Rightarrow> nat \<Rightarrow> nat" where
  "or_default x d = (case x of None \<Rightarrow> d | Some n \<Rightarrow> if n = 0 then d else n)"

subsection \<open>The client and the provider\<close>

text \<open>
  A request as it goes on the wire: method, path, JSON body, query parameters and the
  \<open>Authorization\<close> header. The content-type and accept headers, the same on every request,
  are left out. \<open>Bearer t\<close> is the header text \<open>Bearer ${t}\<close>. An address is either a value
  the caller gave or the text \<open>${username}@${domain}\<close> that \<open>createEmailAddress\<close> composes,
  kept as its two parts.
\<close>

datatype http_method = GET | POST | DELETE

datatype endpoint =
    Domains
  | Accounts
  | Token
  | Messages
  | MessageById "json option"
  | AccountById "json option"

datatype auth_header = Bearer "json option"

datatype address_text = Given "json option" | Generated string "json option"

record request =
  http_method :: http_method
  path :: endpoint
  body :: "(address_text \<times> json option) option"
  params :: "(string \<times> int) list"
  auth :: "auth_header option"

datatype log_line =
    AttemptFailed nat string
  | DebugAddress address_text
  | DebugDomains "json option"
  | UsingDomain "json option"
  | WarnDomains string

datatype event = Sent request | Slept nat | Logged log_line

text \<open>
  The state the service works on: the \<open>Authorization\<close> entry of the client's default
  headers, and the trace of what the process has done so far (requests sent, timers waited
  for, console lines), in order.
\<close>

record world =
  authorization :: "auth_header option"
  trace :: "event list"

text \<open>
  The provider (and the network before it) answers each request with a response body or
  with a failure. Its answer may depend on everything sent so far: it is a function of the
  requests of the trace, the current one last.
\<close>

datatype http_outcome = Response "json option" | Failure err

type_synonym provider = "request list \<Rightarrow> http_outcome"

type_synonym 'a action = "world \<Rightarrow> (err + 'a) \<times> world"

fun sent_requests :: "event list \<Rightarrow> request list" where
  "sent_requests [] = []"
| "sent_requests (Sent r # evs) = r # sent_requests evs"
| "sent_requests (ev # evs) = sent_requests evs"

definition send ::
  "provider \<Rightarrow> http_method \<Rightarrow> endpoint \<Rightarrow> (address_text \<times> json option) option \<Rightarrow>
   (string \<times> int) list \<Rightarrow> auth_header option \<Rightarrow> json option action" where
  "send p m pth bdy prms hdr w =
     (let req = \<lparr>http_method = m, path = pth, body = bdy, params = prms,
                 auth = (case hdr of Some h \<Rightarrow> Some h | None \<Rightarrow> authorization w)\<rparr>;
          w1 = w\<lparr>trace := trace w @ [Sent req]\<rparr>
      in (case p (sent_requests (trace w1)) of
            Response data \<Rightarrow> Inr data
          | Failure e \<Rightarrow> Inl e, w1))"

definition sleep :: "nat \<Rightarrow> world \<Rightarrow> world" where
  "sleep ms w = w\<lparr>trace := trace w @ [Slept ms]\<rparr>"

definition console_log :: "log_line \<Rightarrow> world \<Rightarrow> world" where
  "console_log l w = w\<lparr>trace := trace w @ [Logged l]\<rparr>"

subsection \<open>The service\<close>

text \<open>
  The configuration of the constructor and the options of \<open>withRetry\<close>: a number of
  attempts and a delay in milliseconds, each of which may be left out (\<open>None\<close>). Both are
  natural numbers, a count and a duration; zero is falsy, so \<open>||\<close> replaces it by the default.
\<close>

record config =
  cfg_maxRetries :: "nat option"
  cfg_retryDelay :: "nat option"

record email_service =
  maxRetries :: nat
  retryDelay :: nat

definition EmailService :: "config \<Rightarrow> email_service" where
  "EmailService cfg =
     \<lparr>maxRetries = or_default (cfg_maxRetries cfg) 3,
      retryDelay = or_default (cfg_retryDelay cfg) 1000\<rparr>"

definition setAuthToken :: "json option \<Rightarrow> world \<Rightarrow> world" where
  "setAuthToken token w = w\<lparr>authorization := Some (Bearer token)\<rparr>"

definition clearAuthToken :: "world \<Rightarrow> world" where
  "clearAuthToken w = w\<lparr>authorization := None\<rparr>"

text \<open>
  \<open>withRetry(apiCall, options)\<close>. \<open>retry_wait\<close> is the delay of lines 65 to 67, \<open>pause\<close> the
  rest of the catch block of an attempt that is not the last. The loop that runs out
  without a \<open>return\<close> gives \<open>undefined\<close>, here \<open>None\<close>.
\<close>

definition retry_wait :: "nat \<Rightarrow> nat \<Rightarrow> err \<Rightarrow> nat" where
  "retry_wait delay attempt error =
     (if status error = Some 429 then delay * 2 ^ (attempt - 1) else delay)"

definition pause :: "nat \<Rightarrow> nat \<Rightarrow> err \<Rightarrow> world \<Rightarrow> world" where
  "pause delay attempt error w =
     sleep (retry_wait delay attempt error)
       (console_log (AttemptFailed attempt (message error)) w)"

definition exhausted :: "nat \<Rightarrow> err \<Rightarrow> err" where
  "exhausted n error =
     Error (''Operation failed after '' @ show_nat n @ '' attempts: '' @ message error)"

function retry_loop :: "nat \<Rightarrow> nat \<Rightarrow> 'a action \<Rightarrow> nat \<Rightarrow> world \<Rightarrow> (err + 'a option) \<times> world" where
  "retry_loop maxR delay apiCall attempt w =
     (if attempt \<le> maxR then
        (case apiCall w of
           (Inr v, w1) \<Rightarrow> (Inr (Some v), w1)
         | (Inl error, w1) \<Rightarrow>
             if attempt = maxR then (Inl (exhausted maxR error), w1)
             else retry_loop maxR delay apiCall (attempt + 1) (pause delay attempt error w1))
      else (Inr None, w))"
  by pat_completeness auto
termination
  by (relation "measure (\<lambda>(maxR, delay, apiCall, attempt, w). Suc maxR - attempt)") auto

record retry_options =
  opt_maxRetries :: "nat option"
  opt_retryDelay :: "nat option"

definition no_options :: retry_options where
  "no_options = \<lparr>opt_maxRetries = None, opt_retryDelay = None\<rparr>"

definition withRetry :: "email_service \<Rightarrow> 'a action \<Rightarrow> retry_options \<Rightarrow> world \<Rightarrow> (err + 'a option) \<times> world" where
  "withRetry svc apiCall options w =
     retry_loop (or_default (opt_maxRetries options) (maxRetries svc))
                (or_default (opt_retryDelay options) (retryDelay svc)) apiCall 1 w"

text \<open>\<open>getAvailableDomain()\<close>: the first element of the array that \<open>GET /domains\<close> answers
  with, when it has a truthy \<open>domain\<close>.\<close>

definition no_domains :: err where
  "no_domains = Error ''No valid domains found in the response''"

definition domains_call :: "provider \<Rightarrow> json option action" where
  "domains_call p w =
     (case send p GET Domains None [] None w of
        (Inl e, w1) \<Rightarrow> (Inl e, w1)
      | (Inr data, w1) \<Rightarrow>
          (let w2 = console_log (DebugDomains data) w1
           in case array_of data of
                Some (domainObj # rest) \<Rightarrow>
                  if truthy (Some domainObj) then
                    (case member (Some domainObj) ''domain'' of
                       Inl e \<Rightarrow> (Inl e, w2)
                     | Inr domain \<Rightarrow>
                         if truthy domain then (Inr domain, console_log (UsingDomain domain) w2)
                         else (Inl no_domains, w2))
                  else (Inl no_domains, w2)
              | _ \<Rightarrow> (Inl no_domains, w2)))"

definition getAvailableDomain :: "email_service \<Rightarrow> provider \<Rightarrow> json option action" where
  "getAvailableDomain svc p w =
     (case withRetry svc (domains_call p) no_options w of
        (Inr r, w1) \<Rightarrow> (Inr (case r of None \<Rightarrow> None | Some domain \<Rightarrow> domain), w1)
      | (Inl error, w1) \<Rightarrow>
          (Inl (Error (''Unable to retrieve available email domains: '' @ message error)),
           console_log (WarnDomains (message error)) w1))"

text \<open>
  A result of \<open>Math.random()\<close> is a double in \<open>[0, 1)\<close>. Every such double is
  \<open>mant / 2 ^ expo\<close> for a significand \<open>mant\<close> below \<open>2 ^ 53\<close> and an exponent \<open>expo\<close> of at most
  1074; it is kept as that pair.
\<close>

record draw =
  mant :: nat
  expo :: nat

definition unit_double :: "draw \<Rightarrow> bool" where
  "unit_double d \<longleftrightarrow> mant d < 2 ^ 53 \<and> mant d < 2 ^ expo d \<and> expo d \<le> 1074"

definition draw_value :: "draw \<Rightarrow> real" where
  "draw_value d = real (mant d) / 2 ^ expo d"

text \<open>The number of binary digits of a natural number.\<close>

fun bit_length :: "nat \<Rightarrow> nat" where
  "bit_length n = (if n = 0 then 0 else Suc (bit_length (n div 2)))"

text \<open>
  Rounding to a significand of 53 bits, to the nearest and on a tie to the even one, as
  the arithmetic of doubles does: \<open>round53 n / 2 ^ e\<close> is the double nearest to \<open>n / 2 ^ e\<close>.
\<close>

definition round53 :: "nat \<Rightarrow> nat" where
  "round53 n =
     (let b = bit_length n - 53;
          q = n div 2 ^ b;
          r = n mod 2 ^ b
      in if 2 * r < 2 ^ b then q * 2 ^ b
         else if 2 ^ b < 2 * r then (q + 1) * 2 ^ b
         else if even q then q * 2 ^ b
         else (q + 1) * 2 ^ b)"

text \<open>
  \<open>Math.floor(x * c)\<close> for a double \<open>x\<close> in \<open>[0, 1)\<close> and a small whole number \<open>c\<close>: the
  product of the two doubles is the exact product \<open>mant * c / 2 ^ expo\<close> rounded to the
  nearest double (it is zero or at least \<open>2 ^ -1074\<close> and below \<open>c\<close>, so no exponent goes
  out of range), and the floor of that double is exact.
\<close>

definition floor_times :: "draw \<Rightarrow> nat \<Rightarrow> nat" where
  "floor_times x c = round53 (mant x * c) div 2 ^ expo x"

text \<open>
  The random username of lines 89 to 93. \<open>rnd\<close> gives the successive results of
  \<open>Math.random()\<close>: the first one chooses the length, the following ones the letters.
\<close>

definition username :: "(nat \<Rightarrow> draw) \<Rightarrow> string" where
  "username rnd =
     (let len = floor_times (rnd 0) 5 + 12
      in map (\<lambda>i. char_of (97 + floor_times (rnd (Suc i)) 26)) [0..<len])"

text \<open>What \<open>createEmailAddress\<close> returns: \<open>{id, address, token, password}\<close>.\<close>

record account =
  acc_id :: "json option"
  acc_address :: "json option"
  acc_token :: "json option"
  acc_password :: "json option"

text \<open>The call that \<open>createEmailAddress\<close> retries: a pause, \<open>POST /accounts\<close>, a pause,
  \<open>POST /token\<close>.\<close>

definition account_call :: "provider \<Rightarrow> address_text \<Rightarrow> json option \<Rightarrow> account action" where
  "account_call p address password w =
     (case send p POST Accounts (Some (address, password)) [] None (sleep 1000 w) of
        (Inl e, w1) \<Rightarrow> (Inl e, w1)
      | (Inr accountData, w1) \<Rightarrow>
          if \<not> truthy accountData then (Inl (Error ''Invalid account creation response''), w1)
          else
            (case member accountData ''id'' of
               Inl e \<Rightarrow> (Inl e, w1)
             | Inr account_id \<Rightarrow>
                 if \<not> truthy account_id then (Inl (Error ''Invalid account creation response''), w1)
                 else
                   (case send p POST Token (Some (address, password)) [] None (sleep 1000 w1) of
                      (Inl e, w2) \<Rightarrow> (Inl e, w2)
                    | (Inr tokenData, w2) \<Rightarrow>
                        if \<not> truthy tokenData then (Inl (Error ''Invalid token response''), w2)
                        else
                          (case member tokenData ''token'' of
                             Inl e \<Rightarrow> (Inl e, w2)
                           | Inr token \<Rightarrow>
                               if \<not> truthy token then (Inl (Error ''Invalid token response''), w2)
                               else
                                 (case member accountData ''address'' of
                                    Inl e \<Rightarrow> (Inl e, w2)
                                  | Inr account_address \<Rightarrow>
                                      (Inr \<lparr>acc_id = account_id, acc_address = account_address,
                                            acc_token = token, acc_password = password\<rparr>, w2))))))"

text \<open>The catch block of \<open>createEmailAddress\<close>, lines 149 to 165.\<close>

definition create_failure :: "err \<Rightarrow> err" where
  "create_failure error =
     (let generic = Error (''Failed to create email address: '' @ message error @
                           ''. Please check your internet connection and try again.'')
      in case status error of
           None \<Rightarrow> generic
         | Some st \<Rightarrow>
             if st = 422 then
               Error ''Invalid email address format or domain. Please try again with a different address format.''
             else if st = 429 then
               Error ''Rate limit exceeded. The service is temporarily unavailable. Please try again after a few minutes.''
             else if st = 400 then
               Error ''Bad request: Email provider rejected the request. Check your input parameters.''
             else if st = 403 then
               Error ''Access forbidden: Your IP might be blocked by the email provider.''
             else if st = 500 then
               Error ''Email provider server error. Please try again later.''
             else generic)"

definition create_options :: retry_options where
  "create_options = \<lparr>opt_maxRetries = Some 5, opt_retryDelay = Some 3000\<rparr>"

definition createEmailAddress ::
  "email_service \<Rightarrow> provider \<Rightarrow> (nat \<Rightarrow> draw) \<Rightarrow> json option \<Rightarrow> account option action" where
  "createEmailAddress svc p rnd password_arg w =
     (let password = (case password_arg of None \<Rightarrow> Some (JStr ''Password123!'') | Some v \<Rightarrow> Some v)
      in case getAvailableDomain svc p w of
           (Inl e, w1) \<Rightarrow> (Inl (create_failure e), w1)
         | (Inr domain, w1) \<Rightarrow>
             if \<not> truthy domain
             then (Inl (create_failure (Error ''Failed to retrieve a valid email domain'')), w1)
             else
               (let address = Generated (username rnd) domain;
                    w2 = console_log (DebugAddress address) w1
                in case withRetry svc (account_call p address password) create_options w2 of
                     (Inl e, w3) \<Rightarrow> (Inl (create_failure e), w3)
                   | (Inr r, w3) \<Rightarrow> (Inr r, w3)))"

text \<open>\<open>getEmails(address, password)\<close> and the summaries it maps the members to. The first
  property read of a member, \<open>msg.id\<close>, is the one that can throw; \<open>field\<close> is the read of
  a value that has been read before.\<close>

definition field :: "json option \<Rightarrow> string \<Rightarrow> json option" where
  "field v k = (case member v k of Inl e \<Rightarrow> None | Inr x \<Rightarrow> x)"

record summary =
  sum_id :: "json option"
  sum_from :: "json option"
  sum_to :: "json option"
  sum_subject :: "json option"
  sum_intro :: "json option"
  sum_hasAttachments :: "json option"
  sum_receivedDate :: "json option"

definition summarize :: "json \<Rightarrow> err + summary" where
  "summarize msg =
     (case member (Some msg) ''id'' of
        Inl e \<Rightarrow> Inl e
      | Inr msg_id \<Rightarrow>
          Inr \<lparr>sum_id = msg_id, sum_from = field (Some msg) ''from'', sum_to = field (Some msg) ''to'',
               sum_subject = field (Some msg) ''subject'', sum_intro = field (Some msg) ''intro'',
               sum_hasAttachments = field (Some msg) ''hasAttachments'',
               sum_receivedDate = field (Some msg) ''createdAt''\<rparr>)"

fun summaries :: "json list \<Rightarrow> err + summary list" where
  "summaries [] = Inr []"
| "summaries (msg # msgs) =
     (case summarize msg of
        Inl e \<Rightarrow> Inl e
      | Inr s \<Rightarrow> (case summaries msgs of Inl e \<Rightarrow> Inl e | Inr ss \<Rightarrow> Inr (s # ss)))"

definition fetch_failure :: "string \<Rightarrow> err \<Rightarrow> world \<Rightarrow> (err + 'a) \<times> world" where
  "fetch_failure what error w = (Inl (Error (what @ message error)), clearAuthToken w)"

definition getEmails :: "provider \<Rightarrow> json option \<Rightarrow> json option \<Rightarrow> summary list action" where
  "getEmails p address password w =
     (case send p POST Token (Some (Given address, password)) [] None w of
        (Inl e, w1) \<Rightarrow> fetch_failure ''Failed to fetch emails: '' e w1
      | (Inr authData, w1) \<Rightarrow>
          (case member authData ''token'' of
             Inl e \<Rightarrow> fetch_failure ''Failed to fetch emails: '' e w1
           | Inr token \<Rightarrow>
               (case send p GET Messages None [(''page'', 1), (''limit'', 20)] None (setAuthToken token w1) of
                  (Inl e, w2) \<Rightarrow> fetch_failure ''Failed to fetch emails: '' e w2
                | (Inr data, w2) \<Rightarrow>
                    (let w3 = clearAuthToken w2
                     in if truthy data then
                          (case member data ''hydra:member'' of
                             Inl e \<Rightarrow> fetch_failure ''Failed to fetch emails: '' e w3
                           | Inr members \<Rightarrow>
                               (case array_of members of
                                  Some msgs \<Rightarrow>
                                    (case summaries msgs of
                                       Inl e \<Rightarrow> fetch_failure ''Failed to fetch emails: '' e w3
                                     | Inr result \<Rightarrow> (Inr result, w3))
                                | None \<Rightarrow> (Inr [], w3)))
                        else (Inr [], w3)))))"

text \<open>\<open>getEmailContent(messageId, address, password)\<close>.\<close>

record content =
  con_id :: "json option"
  con_from :: "json option"
  con_to :: "json option"
  con_subject :: "json option"
  con_text :: "json option"
  con_html :: "json option"
  con_attachments :: "json option"
  con_receivedDate :: "json option"

definition getEmailContent ::
  "provider \<Rightarrow> json option \<Rightarrow> json option \<Rightarrow> json option \<Rightarrow> content action" where
  "getEmailContent p messageId address password w =
     (case send p POST Token (Some (Given address, password)) [] None w of
        (Inl e, w1) \<Rightarrow> fetch_failure ''Failed to fetch email content: '' e w1
      | (Inr authData, w1) \<Rightarrow>
          (case member authData ''token'' of
             Inl e \<Rightarrow> fetch_failure ''Failed to fetch email content: '' e w1
           | Inr token \<Rightarrow>
               (case send p GET (MessageById messageId) None [] None (setAuthToken token w1) of
                  (Inl e, w2) \<Rightarrow> fetch_failure ''Failed to fetch email content: '' e w2
                | (Inr data, w2) \<Rightarrow>
                    (let w3 = clearAuthToken w2
                     in if \<not> truthy data
                        then fetch_failure ''Failed to fetch email content: ''
                               (Error ''Invalid response from server'') w3
                        else
                          (Inr \<lparr>con_id = field data ''id'', con_from = field data ''from'',
                                con_to = field data ''to'', con_subject = field data ''subject'',
                                con_text = field data ''text'', con_html = field data ''html'',
                                con_attachments = field data ''attachments'',
                                con_receivedDate = field data ''createdAt''\<rparr>, w3)))))"

text \<open>\<open>deleteEmail(emailId, token)\<close> and \<open>deleteAccount(accountId, token)\<close>: the token goes
  in the headers of the request itself.\<close>

definition delete_call :: "provider \<Rightarrow> endpoint \<Rightarrow> json option \<Rightarrow> bool action" where
  "delete_call p pth token w =
     (case send p DELETE pth None [] (Some (Bearer token)) w of
        (Inl e, w1) \<Rightarrow> (Inl e, w1)
      | (Inr data, w1) \<Rightarrow> (Inr True, w1))"

definition deleteEmail ::
  "email_service \<Rightarrow> provider \<Rightarrow> json option \<Rightarrow> json option \<Rightarrow> bool option action" where
  "deleteEmail svc p emailId token w =
     (if \<not> truthy emailId \<or> \<not> truthy token
      then (Inl (Error (''Failed to delete email: '' @ message (Error ''Email ID and token are required''))), w)
      else
        (case withRetry svc (delete_call p (MessageById emailId) token) no_options w of
           (Inl error, w1) \<Rightarrow> (Inl (Error (''Failed to delete email: '' @ message error)), w1)
         | (Inr r, w1) \<Rightarrow> (Inr r, w1)))"

definition deleteAccount ::
  "email_service \<Rightarrow> provider \<Rightarrow> json option \<Rightarrow> json option \<Rightarrow> bool option action" where
  "deleteAccount svc p accountId token w =
     (if \<not> truthy accountId \<or> \<not> truthy token
      then (Inl (Error (''Failed to delete account: '' @ message (Error ''Account ID and token are required''))), w)
      else
        (case withRetry svc (delete_call p (AccountById accountId) token) no_options w of
           (Inl error, w1) \<Rightarrow> (Inl (Error (''Failed to delete account: '' @ message error)), w1)
         | (Inr r, w1) \<Rightarrow> (Inr r, w1)))"

section \<open>Sample stores\<close>

text \<open>
  Two time zones: UTC, and one that is an hour ahead of UTC until the instant 500000000
  and two hours ahead from then on. A store that has never been used, the same store after
  one save, after a further save that stores a second record of the same address, and on a
  file that cannot be written; the metadata that \<open>createNewEmail\<close> hands to \<open>saveAddress\<close>;
  and a store of three records that expire at the instants 1000, 5000 and 9000, on a file
  that can be written and on one that cannot.
\<close>

definition utc :: timezone where
  "utc = \<lparr>utc_offset = (\<lambda>t. 0), local_offset = (\<lambda>l. 0)\<rparr>"

definition summer_ahead :: timezone where
  "summer_ahead =
     \<lparr>utc_offset = (\<lambda>t. if t < 500000000 then 3600000 else 7200000),
      local_offset = (\<lambda>l. if l < 507200000 then 3600000 else 7200000)\<rparr>"

definition fresh_store :: storage where
  "fresh_store = \<lparr>storageFile = Absent, writable = True, initialized = False, expirationDays = 7\<rparr>"

definition saved_once :: storage where
  "saved_once = snd (saveAddress utc 1000 ''a@x.io'' [(''password'', JStr ''pw'')] fresh_store)"

definition saved_double :: storage where
  "saved_double = snd (saveAddress utc 3000 ''b@x.io'' [(''address'', JStr ''a@x.io'')] saved_once)"

definition read_only_store :: storage where
  "read_only_store = \<lparr>storageFile = Absent, writable = False, initialized = False, expirationDays = 7\<rparr>"

definition cli_metadata :: obj where
  "cli_metadata =
     [(''id'', JStr ''abc''), (''token'', JStr ''tok''), (''password'', JStr ''Password123!''),
      (''createdAt'', JIso 900), (''expiresAt'', JIso 604800900)]"

definition three_records :: storage where
  "three_records =
     \<lparr>storageFile = Records
        [[(''address'', JStr ''a@x.io''), (''expiresAt'', JIso 1000)],
         [(''address'', JStr ''b@x.io''), (''expiresAt'', JIso 5000)],
         [(''address'', JStr ''c@x.io''), (''expiresAt'', JIso 9000)]],
      writable = True, initialized = False, expirationDays = 7\<rparr>"

definition three_records_read_only :: storage where
  "three_records_read_only = three_records\<lparr>writable := False\<rparr>"

section \<open>Sample clients and providers\<close>

text \<open>A client with clean default headers that has done nothing yet, the service with its
  default configuration, and providers that answer in a fixed way.\<close>

definition clean_world :: world where
  "clean_world = \<lparr>authorization = None, trace = []\<rparr>"

definition wrapper_less :: provider where
  "wrapper_less reqs =
     (case path (last reqs) of
        Token \<Rightarrow> Response (Some (JObj [(''token'', JStr ''tok'')]))
      | _ \<Rightarrow> Response (Some (JObj [(''members'', JArr [])])))"

definition one_half :: draw where
  "one_half = \<lparr>mant = 1, expo = 1\<rparr>"

definition three_fifths :: draw where
  "three_fifths = \<lparr>mant = 5404319552844595, expo = 53\<rparr>"

definition sample_draws :: "nat \<Rightarrow> draw" where
  "sample_draws i = (if i = 0 then three_fifths else one_half)"

definition half_draws :: "nat \<Rightarrow> draw" where
  "half_draws i = one_half"

definition default_service :: email_service where
  "default_service = EmailService \<lparr>cfg_maxRetries = None, cfg_retryDelay = None\<rparr>"

definition too_many :: err where
  "too_many = \<lparr>message = ''Request failed with status code 429'', status = Some 429\<rparr>"

definition limited_twice :: provider where
  "limited_twice reqs = (if length reqs < 3 then Failure too_many else Response None)"

definition delete_request :: request where
  "delete_request =
     \<lparr>http_method = DELETE, path = MessageById (Some (JStr ''m1'')), body = None, params = [],
      auth = Some (Bearer (Some (JStr ''tok'')))\<rparr>"

definition sample_delete :: "bool action" where
  "sample_delete = delete_call limited_twice (MessageById (Some (JStr ''m1''))) (Some (JStr ''tok''))"

definition after_first :: world where
  "after_first = \<lparr>authorization = None, trace = [Sent delete_request]\<rparr>"

definition after_second :: world where
  "after_second =
     \<lparr>authorization = None,
      trace = [Sent delete_request, Logged (AttemptFailed 1 (message too_many)), Slept 1000,
               Sent delete_request]\<rparr>"

definition after_third :: world where
  "after_third =
     \<lparr>authorization = None,
      trace = [Sent delete_request, Logged (AttemptFailed 1 (message too_many)), Slept 1000,
               Sent delete_request, Logged (AttemptFailed 2 (message too_many)), Slept 2000,
               Sent delete_request]\<rparr>"

definition always_limited :: provider where
  "always_limited reqs = Failure too_many"

definition failing_delete :: "bool action" where
  "failing_delete = delete_call always_limited (MessageById (Some (JStr ''m1''))) (Some (JStr ''tok''))"

definition failing_start :: "nat \<Rightarrow> world" where
  "failing_start k =
     \<lparr>authorization = None,
      trace = concat (map (\<lambda>i. [Sent delete_request, Logged (AttemptFailed i (message too_many)),
                                 Slept (1000 * 2 ^ (i - 1))]) [1..<k])\<rparr>"

definition failing_after :: "nat \<Rightarrow> world" where
  "failing_after k = (failing_start k)\<lparr>trace := trace (failing_start k) @ [Sent delete_request]\<rparr>"

definition unprocessable :: err where
  "unprocessable = \<lparr>message = ''Request failed with status code 422'', status = Some 422\<rparr>"

definition rejecting :: provider where
  "rejecting reqs =
     (case path (last reqs) of
        Domains \<Rightarrow> Response (Some (JArr [JObj [(''domain'', JStr ''example.com'')]]))
      | _ \<Rightarrow> Failure unprocessable)"

definition null_login :: provider where
  "null_login reqs = Response (Some JNull)"

definition sample_login :: request where
  "sample_login =
     \<lparr>http_method = POST, path = Token,
      body = Some (Given (Some (JStr ''a@x.io'')), Some (JStr ''pw'')), params = [], auth = None\<rparr>"

section \<open>Properties of the store\<close>

lemma readFromFile_initialized: "initialized (snd (readFromFile s))"
  by (simp add: readFromFile_def initialize_def Let_def)

lemma get_prop_assign:
  "get_prop (assign k v item) k' = (if k' = k then Some v else get_prop item k')"
  by (simp add: get_prop_def assign_def update_conv')

lemma map_of_spread: "map_of (spread base ext) = map_of base ++ map_of (rev ext)"
  unfolding spread_def
  by (induction ext arbitrary: base) (auto simp: assign_def update_conv' fun_eq_iff map_add_def split: option.splits)

lemma get_prop_spread_absent:
  "k \<notin> fst ` set ext \<Longrightarrow> get_prop (spread base ext) k = get_prop base k"
  by (simp add: get_prop_def map_of_spread map_add_def map_of_eq_None_iff [THEN iffD2] split: option.splits)

lemma get_prop_spread_present:
  "get_prop (spread base ext) k = (case map_of (rev ext) k of Some v \<Rightarrow> Some v | None \<Rightarrow> get_prop base k)"
  unfolding get_prop_def by (simp add: map_of_spread map_add_def)

lemma map_of_rev_distinct: "distinct (map fst xs) \<Longrightarrow> map_of (rev xs) = map_of xs"
proof (induction xs)
  case Nil
  then show ?case by simp
next
  case (Cons x xs)
  then have "fst x \<notin> dom (map_of xs)"
    by (simp add: dom_map_of_conv_image_fst)
  with Cons show ?case
    by (cases x) (auto simp: fun_eq_iff map_add_def split: option.splits)
qed

lemma distinct_spread: "distinct (map fst base) \<Longrightarrow> distinct (map fst (spread base ext))"
  unfolding spread_def
  by (induction ext arbitrary: base) (auto simp: assign_def distinct_update)

lemma distinct_addressData: "distinct (map fst (addressData now e address metadata))"
  by (simp add: addressData_def assign_def distinct_update distinct_spread)

lemma get_prop_spread_distinct:
  "distinct (map fst ext) \<Longrightarrow>
   get_prop (spread base ext) k = (case get_prop ext k of Some v \<Rightarrow> Some v | None \<Rightarrow> get_prop base k)"
  by (simp add: get_prop_spread_present map_of_rev_distinct) (simp add: get_prop_def)

lemma findIndex_None: "findIndex P xs = None \<longleftrightarrow> (\<forall>x \<in> set xs. \<not> P x)"
  by (induction xs) auto

lemma findIndex_Some:
  "findIndex P xs = Some i \<Longrightarrow> i < length xs \<and> P (xs ! i) \<and> filter P xs = xs ! i # tl (filter P xs)
     \<and> (\<forall>y. P y \<longrightarrow> filter P (xs[i := y]) = y # tl (filter P xs))"
proof (induction xs arbitrary: i)
  case Nil
  then show ?case by simp
next
  case (Cons x xs)
  show ?case
  proof (cases "P x")
    case True
    with Cons.prems show ?thesis by simp
  next
    case False
    with Cons.prems obtain j where j: "findIndex P xs = Some j" "i = Suc j"
      by auto
    from Cons.IH [OF j(1)] False j(2) show ?thesis by simp
  qed
qed

lemma addressData_props:
  "get_prop (addressData now e address metadata) ''updatedAt'' = Some (JIso now)"
  "get_prop (addressData now e address metadata) ''expiresAt'' = Some (JIso e)"
  "''address'' \<notin> fst ` set metadata \<Longrightarrow>
     get_prop (addressData now e address metadata) ''address'' = Some (JStr address)"
  "''createdAt'' \<notin> fst ` set metadata \<Longrightarrow>
     get_prop (addressData now e address metadata) ''createdAt'' = None"
  by (simp_all add: addressData_def get_prop_assign get_prop_spread_absent) (simp_all add: get_prop_def)


lemma readFromFile_writable: "writable (snd (readFromFile s)) = writable s"
  by (simp add: readFromFile_def initialize_def writeToFile_def Let_def split: file_state.splits)

lemma readFromFile_expirationDays: "expirationDays (snd (readFromFile s)) = expirationDays s"
  by (simp add: readFromFile_def initialize_def writeToFile_def Let_def split: file_state.splits)

lemma readFromFile_written:
  "initialized s' \<Longrightarrow> storageFile s' = Records xs \<Longrightarrow> readFromFile s' = (xs, s')"
  by (simp add: readFromFile_def)

lemma saveAddress_stored:
  assumes "writable s"
  shows "fst (saveAddress tz now address metadata s) = True"
    and "fst (readFromFile (snd (saveAddress tz now address metadata s))) =
      (let addresses = fst (readFromFile s);
           data = addressData now (setDate_plus tz now (expirationDays s)) address metadata
       in case findIndex (has_address address) addresses of
            Some i \<Rightarrow> addresses[i := spread (addresses ! i) data]
          | None \<Rightarrow> addresses @ [assign ''createdAt'' (JIso now) data])"
  using assms readFromFile_initialized [of s] readFromFile_writable [of s] readFromFile_expirationDays [of s]
  by (auto simp: saveAddress_def writeToFile_def Let_def readFromFile_written
      split: prod.splits option.splits)

lemma setDate_plus_same_offset:
  "utc_offset tz t = local_offset tz (t + utc_offset tz t + n * ms_per_day) \<Longrightarrow>
   setDate_plus tz t n = t + n * ms_per_day"
  by (simp add: setDate_plus_def Let_def)

lemma saved_once_file:
  "saved_once =
     \<lparr>storageFile = Records
        [[(''address'', JStr ''a@x.io''), (''password'', JStr ''pw''),
          (''expiresAt'', JIso 604801000), (''updatedAt'', JIso 1000), (''createdAt'', JIso 1000)]],
      writable = True, initialized = True, expirationDays = 7\<rparr>"
  by (simp add: saved_once_def fresh_store_def saveAddress_def readFromFile_def initialize_def
      writeToFile_def addressData_def spread_def assign_def has_address_def get_prop_def
      setDate_plus_def utc_def ms_per_day_def)

lemma saved_double_file:
  "saved_double =
     \<lparr>storageFile = Records
        [[(''address'', JStr ''a@x.io''), (''password'', JStr ''pw''),
          (''expiresAt'', JIso 604801000), (''updatedAt'', JIso 1000), (''createdAt'', JIso 1000)],
         [(''address'', JStr ''a@x.io''), (''expiresAt'', JIso 604803000),
          (''updatedAt'', JIso 3000), (''createdAt'', JIso 3000)]],
      writable = True, initialized = True, expirationDays = 7\<rparr>"
  by (simp add: saved_double_def saved_once_file saveAddress_def readFromFile_def
      writeToFile_def addressData_def spread_def assign_def has_address_def get_prop_def
      setDate_plus_def utc_def ms_per_day_def)

lemma getAddresses_all: "fst (getAddresses True t s) = fst (readFromFile s)"
  by (simp add: getAddresses_def split: prod.splits)

lemma not_expired_iff:
  "not_expired now item \<longleftrightarrow> (\<exists>t. date_of (get_prop item ''expiresAt'') = Some t \<and> now < t)"
  by (simp add: not_expired_def date_after_def split: option.splits)

lemma readFromFile_idem: "readFromFile (snd (readFromFile s)) = readFromFile s"
  by (simp add: readFromFile_def initialize_def writeToFile_def Let_def split: file_state.splits)

lemma length_filter_split: "length (filter P xs) + length (filter (\<lambda>x. \<not> P x) xs) = length xs"
  by (induction xs) auto

lemma cleanupExpired_count:
  "fst (cleanupExpired now s) = length (filter (\<lambda>item. \<not> not_expired now item) (fst (readFromFile s)))"
proof -
  have "length xs - length (filter P xs) = length (filter (\<lambda>x. \<not> P x) xs)" for P and xs :: "obj list"
    using length_filter_split [of P xs] by arith
  then show ?thesis
    by (simp add: cleanupExpired_def Let_def split: prod.splits)
qed

lemma cleanupExpired_state:
  "snd (cleanupExpired now s) =
     (if 0 < fst (cleanupExpired now s)
      then snd (writeToFile (filter (not_expired now) (fst (readFromFile s))) (snd (readFromFile s)))
      else snd (readFromFile s))"
  by (simp add: cleanupExpired_def Let_def split: prod.splits)

lemma filter_none_removed: "length (filter P xs) = length xs \<Longrightarrow> filter P xs = xs"
  by (metis filter_True length_filter_less less_irrefl_nat)

lemma three_records_read:
  "readFromFile three_records =
     ([[(''address'', JStr ''a@x.io''), (''expiresAt'', JIso 1000)],
       [(''address'', JStr ''b@x.io''), (''expiresAt'', JIso 5000)],
       [(''address'', JStr ''c@x.io''), (''expiresAt'', JIso 9000)]],
      three_records\<lparr>initialized := True\<rparr>)"
  by (simp add: readFromFile_def initialize_def three_records_def)

subsection \<open>Saving\<close>

text \<open>
  Claim C1, as the code has it. \<open>saveAddress\<close> is an upsert keyed by the address when the
  metadata has no \<open>address\<close> property of its own and, where the address is already stored,
  no \<open>createdAt\<close> property either, the store holds at most one record of that address and
  the file can be written. Then the call reports success, the store holds exactly one record
  of that address, its \<open>updatedAt\<close> is \<open>now\<close>, its \<open>createdAt\<close> is \<open>now\<close> when the address was
  not stored before (whatever the metadata says) and the stored record's \<open>createdAt\<close>
  otherwise, and its \<open>expiresAt\<close> is \<open>now\<close> moved on by \<open>expirationDays\<close> calendar days of the
  local time, which is \<open>now + expirationWindow\<close> when the local offset from UTC is the same
  at both ends.
\<close>

theorem saveAddress_upsert:
  assumes no_address: "''address'' \<notin> fst ` set metadata"
      and no_created: "filter (has_address address) (fst (getAddresses True now s)) \<noteq> []
                         \<longrightarrow> ''createdAt'' \<notin> fst ` set metadata"
      and unique: "length (filter (has_address address) (fst (getAddresses True now s))) \<le> 1"
      and writable: "writable s"
  shows "fst (saveAddress tz now address metadata s) \<and>
    (\<exists>item. filter (has_address address)
              (fst (getAddresses True later (snd (saveAddress tz now address metadata s)))) = [item]
       \<and> get_prop item ''expiresAt'' = Some (JIso (setDate_plus tz now (expirationDays s)))
       \<and> (utc_offset tz now = local_offset tz (now + utc_offset tz now + expirationWindow s)
            \<longrightarrow> get_prop item ''expiresAt'' = Some (JIso (now + expirationWindow s)))
       \<and> get_prop item ''updatedAt'' = Some (JIso now)
       \<and> get_prop item ''createdAt'' =
            (case filter (has_address address) (fst (getAddresses True now s)) of
               [] \<Rightarrow> Some (JIso now)
             | old # _ \<Rightarrow> get_prop old ''createdAt''))"
proof -
  define addresses where "addresses = fst (readFromFile s)"
  define expires where "expires = setDate_plus tz now (expirationDays s)"
  define data where "data = addressData now expires address metadata"
  define P where "P = has_address address"
  have stored: "fst (getAddresses True t s') = fst (readFromFile s')" for t s'
    by (simp add: getAddresses_def split: prod.splits)
  have uniq: "length (filter P addresses) \<le> 1"
    using unique by (simp add: stored addresses_def P_def)
  have after: "fst (getAddresses True later (snd (saveAddress tz now address metadata s))) =
      (case findIndex P addresses of
         Some i \<Rightarrow> addresses[i := spread (addresses ! i) data]
       | None \<Rightarrow> addresses @ [assign ''createdAt'' (JIso now) data])"
    using saveAddress_stored(2) [OF writable, of tz now address metadata]
    unfolding addresses_def data_def expires_def P_def by (simp add: stored Let_def)
  have data_addr: "get_prop data ''address'' = Some (JStr address)"
    using no_address by (simp add: data_def addressData_props)
  have data_exp: "get_prop data ''expiresAt'' = Some (JIso expires)"
    and data_upd: "get_prop data ''updatedAt'' = Some (JIso now)"
    by (simp_all add: data_def addressData_props)
  have same_offset: "utc_offset tz now = local_offset tz (now + utc_offset tz now + expirationWindow s)
      \<longrightarrow> expires = now + expirationWindow s"
    by (simp add: expires_def expirationWindow_def setDate_plus_same_offset)
  have dist: "distinct (map fst data)"
    by (simp add: data_def distinct_addressData)
  have ok: "fst (saveAddress tz now address metadata s)"
    using saveAddress_stored(1) [OF writable] by simp
  have before: "filter (has_address address) (fst (getAddresses True now s)) = filter P addresses"
    by (simp add: stored addresses_def P_def)
  show ?thesis
  proof (cases "findIndex P addresses")
    case None
    then have none: "filter P addresses = []"
      by (simp add: findIndex_None)
    let ?item = "assign ''createdAt'' (JIso now) data"
    have "P ?item"
      using data_addr by (simp add: P_def has_address_def get_prop_assign)
    then have "filter P (addresses @ [?item]) = [?item]"
      using none by simp
    then have found: "filter (has_address address)
        (fst (getAddresses True later (snd (saveAddress tz now address metadata s)))) = [?item]"
      using None by (simp add: after P_def)
    have "get_prop ?item ''expiresAt'' = Some (JIso expires)"
      "get_prop ?item ''updatedAt'' = Some (JIso now)"
      "get_prop ?item ''createdAt'' = Some (JIso now)"
      using data_exp data_upd by (simp_all add: get_prop_assign)
    then show ?thesis
      using ok same_offset unfolding expires_def [symmetric]
      by (intro conjI exI [of _ ?item]) (simp_all add: found before none)
  next
    case (Some i)
    let ?item = "spread (addresses ! i) data"
    from findIndex_Some [OF Some]
    have hd: "filter P addresses = addresses ! i # tl (filter P addresses)"
      and upd: "\<And>y. P y \<Longrightarrow> filter P (addresses[i := y]) = y # tl (filter P addresses)"
      by blast+
    from hd uniq have tl: "tl (filter P addresses) = []"
      by (cases "filter P addresses") auto
    have "filter P addresses \<noteq> []"
      using hd by (cases "filter P addresses") auto
    with no_created before have "''createdAt'' \<notin> fst ` set metadata"
      by simp
    then have data_created: "get_prop data ''createdAt'' = None"
      by (simp add: data_def addressData_props)
    have "P ?item"
      using data_addr by (simp add: P_def has_address_def get_prop_spread_distinct [OF dist])
    then have "filter P (addresses[i := ?item]) = [?item]"
      using upd tl by simp
    then have found: "filter (has_address address)
        (fst (getAddresses True later (snd (saveAddress tz now address metadata s)))) = [?item]"
      using Some by (simp add: after P_def)
    have old: "filter P addresses = [addresses ! i]"
      using hd tl by simp
    have "get_prop ?item ''expiresAt'' = Some (JIso expires)"
      "get_prop ?item ''updatedAt'' = Some (JIso now)"
      "get_prop ?item ''createdAt'' = get_prop (addresses ! i) ''createdAt''"
      using data_exp data_upd data_created by (simp_all add: get_prop_spread_distinct [OF dist])
    then show ?thesis
      using ok same_offset unfolding expires_def [symmetric]
      by (intro conjI exI [of _ ?item]) (simp_all add: found before old)
  qed
qed

text \<open>
  Two saves in UTC: the first save of an address with the metadata of \<open>createNewEmail\<close>,
  which carries \<open>createdAt\<close> and \<open>expiresAt\<close>, and a later save of an address already stored.
\<close>

theorem saveAddress_upsert_witness:
  "''address'' \<notin> fst ` set cli_metadata
   \<and> filter (has_address ''n@x.io'') (fst (getAddresses True 1000 fresh_store)) = []
   \<and> writable fresh_store
   \<and> utc_offset utc 1000 = local_offset utc (1000 + utc_offset utc 1000 + expirationWindow fresh_store)
   \<and> fst (saveAddress utc 1000 ''n@x.io'' cli_metadata fresh_store)
   \<and> (\<exists>item. filter (has_address ''n@x.io'')
          (fst (getAddresses True 3000 (snd (saveAddress utc 1000 ''n@x.io'' cli_metadata fresh_store)))) = [item]
        \<and> get_prop item ''expiresAt'' = Some (JIso 604801000)
        \<and> get_prop item ''updatedAt'' = Some (JIso 1000)
        \<and> get_prop item ''createdAt'' = Some (JIso 1000))
   \<and> ''address'' \<notin> fst ` set [(''password'', JStr ''new'')]
   \<and> ''createdAt'' \<notin> fst ` set [(''password'', JStr ''new'')]
   \<and> length (filter (has_address ''a@x.io'') (fst (getAddresses True 2000 saved_once))) = 1
   \<and> writable saved_once
   \<and> fst (saveAddress utc 2000 ''a@x.io'' [(''password'', JStr ''new'')] saved_once)
   \<and> (\<exists>item. filter (has_address ''a@x.io'')
          (fst (getAddresses True 3000 (snd (saveAddress utc 2000 ''a@x.io'' [(''password'', JStr ''new'')] saved_once)))) = [item]
        \<and> get_prop item ''expiresAt'' = Some (JIso 604802000)
        \<and> get_prop item ''updatedAt'' = Some (JIso 2000)
        \<and> get_prop item ''createdAt'' = Some (JIso 1000))"
proof -
  have f1: "''address'' \<notin> fst ` set cli_metadata"
    by (simp add: cli_metadata_def)
  have fresh: "filter (has_address ''n@x.io'') (fst (getAddresses True 1000 fresh_store)) = []"
    by (simp add: fresh_store_def getAddresses_def readFromFile_def initialize_def writeToFile_def)
  have f2: "filter (has_address ''n@x.io'') (fst (getAddresses True 1000 fresh_store)) \<noteq> []
      \<longrightarrow> ''createdAt'' \<notin> fst ` set cli_metadata"
    by (simp add: fresh)
  have f3: "length (filter (has_address ''n@x.io'') (fst (getAddresses True 1000 fresh_store))) \<le> 1"
    by (simp add: fresh)
  have f4: "writable fresh_store"
    by (simp add: fresh_store_def)
  have f5: "utc_offset utc 1000 = local_offset utc (1000 + utc_offset utc 1000 + expirationWindow fresh_store)"
    by (simp add: utc_def)
  have fe: "expirationWindow fresh_store = 604800000"
    by (simp add: fresh_store_def expirationWindow_def ms_per_day_def)
  have first: "fst (saveAddress utc 1000 ''n@x.io'' cli_metadata fresh_store)
   \<and> (\<exists>item. filter (has_address ''n@x.io'')
          (fst (getAddresses True 3000 (snd (saveAddress utc 1000 ''n@x.io'' cli_metadata fresh_store)))) = [item]
        \<and> get_prop item ''expiresAt'' = Some (JIso 604801000)
        \<and> get_prop item ''updatedAt'' = Some (JIso 1000)
        \<and> get_prop item ''createdAt'' = Some (JIso 1000))"
    using saveAddress_upsert [OF f1 f2 f3 f4, of utc 3000] f5
    by (auto simp: fe fresh)
  have h1: "''address'' \<notin> fst ` set [(''password'', JStr ''new'')]"
    and h2: "''createdAt'' \<notin> fst ` set [(''password'', JStr ''new'')]"
    by simp_all
  have old: "filter (has_address ''a@x.io'') (fst (getAddresses True 2000 saved_once)) =
      [[(''address'', JStr ''a@x.io''), (''password'', JStr ''pw''),
        (''expiresAt'', JIso 604801000), (''updatedAt'', JIso 1000), (''createdAt'', JIso 1000)]]"
    by (simp add: saved_once_file getAddresses_def readFromFile_def has_address_def get_prop_def)
  have h2': "filter (has_address ''a@x.io'') (fst (getAddresses True 2000 saved_once)) \<noteq> []
      \<longrightarrow> ''createdAt'' \<notin> fst ` set [(''password'', JStr ''new'')]"
    by simp
  have h3: "length (filter (has_address ''a@x.io'') (fst (getAddresses True 2000 saved_once))) \<le> 1"
    by (simp add: old)
  have h4: "writable saved_once"
    by (simp add: saved_once_file)
  have h5: "utc_offset utc 2000 = local_offset utc (2000 + utc_offset utc 2000 + expirationWindow saved_once)"
    by (simp add: utc_def)
  have e: "expirationWindow saved_once = 604800000"
    by (simp add: saved_once_file expirationWindow_def ms_per_day_def)
  have second: "fst (saveAddress utc 2000 ''a@x.io'' [(''password'', JStr ''new'')] saved_once)
   \<and> (\<exists>item. filter (has_address ''a@x.io'')
          (fst (getAddresses True 3000 (snd (saveAddress utc 2000 ''a@x.io'' [(''password'', JStr ''new'')] saved_once)))) = [item]
        \<and> get_prop item ''expiresAt'' = Some (JIso 604802000)
        \<and> get_prop item ''updatedAt'' = Some (JIso 2000)
        \<and> get_prop item ''createdAt'' = Some (JIso 1000))"
    using saveAddress_upsert [OF h1 h2' h3 h4, of utc 3000] h5
    by (auto simp: e old get_prop_def)
  from f1 fresh f4 f5 first h1 h2 old h4 second show ?thesis
    by simp
qed

text \<open>
  Claim C1 as stated, for every metadata object and every store, does not hold. After a
  first save at the instant 1000, a second save of the same address whose metadata carries
  \<open>createdAt\<close> replaces the stored \<open>createdAt\<close>. A save whose metadata carries \<open>address\<close>
  stores its record under the metadata's address, here a second record of an address
  already stored; and on the store that this leaves, a plain save of that address updates
  the first of the two records and leaves both. On a file that cannot be written the call
  reports failure and nothing is stored. In a time zone whose offset changes within the
  window, \<open>expiresAt\<close> is an hour short of \<open>now\<close> plus seven days of 24 hours (604801000).
\<close>

theorem saveAddress_counterexample:
  "fst (getAddresses True 1500 saved_once) =
     [[(''address'', JStr ''a@x.io''), (''password'', JStr ''pw''),
       (''expiresAt'', JIso 604801000), (''updatedAt'', JIso 1000), (''createdAt'', JIso 1000)]]
   \<and> fst (getAddresses True 2500 (snd (saveAddress utc 2000 ''a@x.io'' [(''createdAt'', JIso 5)] saved_once))) =
     [[(''address'', JStr ''a@x.io''), (''password'', JStr ''pw''),
       (''expiresAt'', JIso 604802000), (''updatedAt'', JIso 2000), (''createdAt'', JIso 5)]]
   \<and> fst (getAddresses True 3500 (snd (saveAddress utc 3000 ''b@x.io'' [(''address'', JStr ''a@x.io'')] saved_once))) =
     [[(''address'', JStr ''a@x.io''), (''password'', JStr ''pw''),
       (''expiresAt'', JIso 604801000), (''updatedAt'', JIso 1000), (''createdAt'', JIso 1000)],
      [(''address'', JStr ''a@x.io''), (''expiresAt'', JIso 604803000),
       (''updatedAt'', JIso 3000), (''createdAt'', JIso 3000)]]
   \<and> fst (getAddresses True 4500 (snd (saveAddress utc 4000 ''a@x.io'' [] saved_double))) =
     [[(''address'', JStr ''a@x.io''), (''password'', JStr ''pw''),
       (''expiresAt'', JIso 604804000), (''updatedAt'', JIso 4000), (''createdAt'', JIso 1000)],
      [(''address'', JStr ''a@x.io''), (''expiresAt'', JIso 604803000),
       (''updatedAt'', JIso 3000), (''createdAt'', JIso 3000)]]
   \<and> fst (saveAddress utc 1000 ''a@x.io'' [] read_only_store) = False
   \<and> fst (getAddresses True 1500 (snd (saveAddress utc 1000 ''a@x.io'' [] read_only_store))) = []
   \<and> fst (getAddresses True 1500 (snd (saveAddress summer_ahead 1000 ''a@x.io'' [] fresh_store))) =
     [[(''address'', JStr ''a@x.io''), (''expiresAt'', JIso 601201000),
       (''updatedAt'', JIso 1000), (''createdAt'', JIso 1000)]]"
proof -
  have created: "fst (getAddresses True 2500 (snd (saveAddress utc 2000 ''a@x.io'' [(''createdAt'', JIso 5)] saved_once))) =
     [[(''address'', JStr ''a@x.io''), (''password'', JStr ''pw''),
       (''expiresAt'', JIso 604802000), (''updatedAt'', JIso 2000), (''createdAt'', JIso 5)]]"
    by (simp add: saved_once_file saveAddress_def getAddresses_def readFromFile_def
        writeToFile_def addressData_def spread_def assign_def has_address_def
        get_prop_def setDate_plus_def utc_def ms_per_day_def)
  have doubled: "fst (getAddresses True 4500 (snd (saveAddress utc 4000 ''a@x.io'' [] saved_double))) =
     [[(''address'', JStr ''a@x.io''), (''password'', JStr ''pw''),
       (''expiresAt'', JIso 604804000), (''updatedAt'', JIso 4000), (''createdAt'', JIso 1000)],
      [(''address'', JStr ''a@x.io''), (''expiresAt'', JIso 604803000),
       (''updatedAt'', JIso 3000), (''createdAt'', JIso 3000)]]"
    by (simp add: saved_double_file saveAddress_def getAddresses_def readFromFile_def
        writeToFile_def addressData_def spread_def assign_def has_address_def
        get_prop_def setDate_plus_def utc_def ms_per_day_def)
  have read_only: "fst (saveAddress utc 1000 ''a@x.io'' [] read_only_store) = False"
    "fst (getAddresses True 1500 (snd (saveAddress utc 1000 ''a@x.io'' [] read_only_store))) = []"
    by (simp_all add: read_only_store_def saveAddress_def getAddresses_def readFromFile_def
        initialize_def writeToFile_def addressData_def spread_def assign_def has_address_def
        get_prop_def)
  have summer: "fst (getAddresses True 1500 (snd (saveAddress summer_ahead 1000 ''a@x.io'' [] fresh_store))) =
     [[(''address'', JStr ''a@x.io''), (''expiresAt'', JIso 601201000),
       (''updatedAt'', JIso 1000), (''createdAt'', JIso 1000)]]"
    by (simp add: fresh_store_def saveAddress_def getAddresses_def readFromFile_def
        initialize_def writeToFile_def addressData_def spread_def assign_def has_address_def
        get_prop_def setDate_plus_def summer_ahead_def ms_per_day_def)
  have once: "fst (getAddresses True 1500 saved_once) =
     [[(''address'', JStr ''a@x.io''), (''password'', JStr ''pw''),
       (''expiresAt'', JIso 604801000), (''updatedAt'', JIso 1000), (''createdAt'', JIso 1000)]]"
    by (simp add: saved_once_file getAddresses_def readFromFile_def)
  have twice: "fst (getAddresses True 3500 (snd (saveAddress utc 3000 ''b@x.io'' [(''address'', JStr ''a@x.io'')] saved_once))) =
     [[(''address'', JStr ''a@x.io''), (''password'', JStr ''pw''),
       (''expiresAt'', JIso 604801000), (''updatedAt'', JIso 1000), (''createdAt'', JIso 1000)],
      [(''address'', JStr ''a@x.io''), (''expiresAt'', JIso 604803000),
       (''updatedAt'', JIso 3000), (''createdAt'', JIso 3000)]]"
    using saved_double_file by (simp add: saved_double_def getAddresses_def readFromFile_def)
  from once created twice doubled read_only summer show ?thesis
    by simp
qed

subsection \<open>Listing\<close>

text \<open>
  Claim C5. \<open>getAddresses(false)\<close> returns, in order, exactly the stored records whose
  \<open>expiresAt\<close> is a date strictly after the instant of the call; a record whose \<open>expiresAt\<close>
  is that very instant is left out; and a later call filters the same stored records by its
  own instant, nothing of the earlier answer being kept.
\<close>

theorem getAddresses_active:
  "fst (getAddresses False now s) =
     filter (\<lambda>item. \<exists>t. date_of (get_prop item ''expiresAt'') = Some t \<and> now < t)
       (fst (getAddresses True now s))
   \<and> (\<forall>item. date_of (get_prop item ''expiresAt'') = Some now \<longrightarrow>
          item \<notin> set (fst (getAddresses False now s)))
   \<and> fst (getAddresses False later (snd (getAddresses False now s))) =
     filter (\<lambda>item. \<exists>t. date_of (get_prop item ''expiresAt'') = Some t \<and> later < t)
       (fst (getAddresses True now s))"
proof -
  have a: "fst (getAddresses False t s') = filter (not_expired t) (fst (readFromFile s'))" for t s'
    by (simp add: getAddresses_def split: prod.splits)
  have b: "snd (getAddresses False t s') = snd (readFromFile s')" for t s'
    by (simp add: getAddresses_def split: prod.splits)
  have c: "not_expired t = (\<lambda>item. \<exists>u. date_of (get_prop item ''expiresAt'') = Some u \<and> t < u)" for t
    by (simp add: fun_eq_iff not_expired_iff)
  show ?thesis
    by (simp add: a b getAddresses_all readFromFile_idem) (simp add: c)
qed

theorem getAddresses_active_witness:
  "date_of (get_prop [(''address'', JStr ''b@x.io''), (''expiresAt'', JIso 5000)] ''expiresAt'') = Some 5000
   \<and> [(''address'', JStr ''b@x.io''), (''expiresAt'', JIso 5000)] \<in> set (fst (getAddresses True 5000 three_records))
   \<and> [(''address'', JStr ''b@x.io''), (''expiresAt'', JIso 5000)] \<notin> set (fst (getAddresses False 5000 three_records))
   \<and> fst (getAddresses False 5000 three_records) = [[(''address'', JStr ''c@x.io''), (''expiresAt'', JIso 9000)]]
   \<and> fst (getAddresses False 9000 (snd (getAddresses False 5000 three_records))) = []"
proof -
  have stored: "fst (getAddresses True 5000 three_records) =
      [[(''address'', JStr ''a@x.io''), (''expiresAt'', JIso 1000)],
       [(''address'', JStr ''b@x.io''), (''expiresAt'', JIso 5000)],
       [(''address'', JStr ''c@x.io''), (''expiresAt'', JIso 9000)]]"
    by (simp add: getAddresses_def three_records_read)
  show ?thesis
    using getAddresses_active [of 5000 three_records 9000]
    by (simp add: stored get_prop_def)
qed

subsection \<open>Cleaning up\<close>

text \<open>
  When the file can be written, \<open>cleanupExpired\<close> returns the number of stored records whose
  \<open>expiresAt\<close> is not a date after now, leaves exactly the other records retrievable, and
  rewrites the file (with those records only) just when that number is not zero. On three
  records, two with \<open>expiresAt\<close> in the past and one in the future, it returns 2 and one
  record remains.
\<close>

theorem cleanupExpired_prunes:
  assumes writable: "writable s"
  shows "fst (cleanupExpired now s) =
       length (filter (\<lambda>item. \<not> (\<exists>t. date_of (get_prop item ''expiresAt'') = Some t \<and> now < t))
                 (fst (getAddresses True now s)))
     \<and> fst (getAddresses True later (snd (cleanupExpired now s))) =
       filter (\<lambda>item. \<exists>t. date_of (get_prop item ''expiresAt'') = Some t \<and> now < t)
         (fst (getAddresses True now s))
     \<and> snd (cleanupExpired now s) =
       (if fst (cleanupExpired now s) = 0 then snd (getAddresses True now s)
        else (snd (getAddresses True now s))
               \<lparr>storageFile := Records
                  (filter (\<lambda>item. \<exists>t. date_of (get_prop item ''expiresAt'') = Some t \<and> now < t)
                     (fst (getAddresses True now s)))\<rparr>)
     \<and> (length (fst (getAddresses True now s)) = 3
          \<and> length (filter (\<lambda>item. \<exists>t. date_of (get_prop item ''expiresAt'') = Some t \<and> t < now)
                       (fst (getAddresses True now s))) = 2
          \<and> length (filter (\<lambda>item. \<exists>t. date_of (get_prop item ''expiresAt'') = Some t \<and> now < t)
                       (fst (getAddresses True now s))) = 1
          \<longrightarrow> fst (cleanupExpired now s) = 2
            \<and> length (fst (getAddresses True later (snd (cleanupExpired now s)))) = 1)"
proof -
  define stored where "stored = fst (readFromFile s)"
  define s1 where "s1 = snd (readFromFile s)"
  define valid where "valid = filter (not_expired now) stored"
  have c: "not_expired now = (\<lambda>item. \<exists>t. date_of (get_prop item ''expiresAt'') = Some t \<and> now < t)"
    by (simp add: fun_eq_iff not_expired_iff)
  have all: "fst (getAddresses True t s') = fst (readFromFile s')"
    and all2: "snd (getAddresses True t s') = snd (readFromFile s')" for t s'
    by (simp_all add: getAddresses_def split: prod.splits)
  have count: "fst (cleanupExpired now s) = length (filter (\<lambda>item. \<not> not_expired now item) stored)"
    by (simp add: cleanupExpired_count stored_def)
  have split: "length valid + fst (cleanupExpired now s) = length stored"
    using length_filter_split [of "not_expired now" stored] by (simp add: count valid_def)
  have s1: "initialized s1" "writable s1"
    using writable by (simp_all add: s1_def readFromFile_initialized readFromFile_writable)
  have state: "snd (cleanupExpired now s) =
      (if 0 < fst (cleanupExpired now s) then s1\<lparr>storageFile := Records valid\<rparr> else s1)"
    using s1 by (simp add: cleanupExpired_state writeToFile_def valid_def stored_def s1_def)
  have reread: "fst (readFromFile s1) = stored"
    by (simp add: s1_def stored_def readFromFile_idem)
  have after: "fst (readFromFile (snd (cleanupExpired now s))) = valid"
  proof (cases "0 < fst (cleanupExpired now s)")
    case True
    then show ?thesis
      using s1 by (simp add: state readFromFile_def)
  next
    case False
    then have "length valid = length stored"
      using split by simp
    then have "valid = stored"
      unfolding valid_def by (rule filter_none_removed)
    then show ?thesis
      using False by (simp add: state reread)
  qed
  have "snd (cleanupExpired now s) =
      (if fst (cleanupExpired now s) = 0 then s1 else s1\<lparr>storageFile := Records valid\<rparr>)"
    by (simp add: state)
  moreover have "length stored = 3 \<and> length valid = 1 \<longrightarrow> fst (cleanupExpired now s) = 2"
    using split by auto
  ultimately show ?thesis
    using count after unfolding all all2 stored_def [symmetric] s1_def [symmetric]
    by (simp add: valid_def c)
qed

theorem cleanupExpired_prunes_witness:
  "writable three_records
   \<and> length (fst (getAddresses True 6000 three_records)) = 3
   \<and> length (filter (\<lambda>item. \<exists>t. date_of (get_prop item ''expiresAt'') = Some t \<and> t < 6000)
               (fst (getAddresses True 6000 three_records))) = 2
   \<and> length (filter (\<lambda>item. \<exists>t. date_of (get_prop item ''expiresAt'') = Some t \<and> 6000 < t)
               (fst (getAddresses True 6000 three_records))) = 1
   \<and> fst (cleanupExpired 6000 three_records) = 2
   \<and> length (fst (getAddresses True 7000 (snd (cleanupExpired 6000 three_records)))) = 1"
proof -
  have w: "writable three_records"
    by (simp add: three_records_def)
  have stored: "fst (getAddresses True 6000 three_records) =
      [[(''address'', JStr ''a@x.io''), (''expiresAt'', JIso 1000)],
       [(''address'', JStr ''b@x.io''), (''expiresAt'', JIso 5000)],
       [(''address'', JStr ''c@x.io''), (''expiresAt'', JIso 9000)]]"
    by (simp add: getAddresses_def three_records_read)
  have scenario: "length (fst (getAddresses True 6000 three_records)) = 3
     \<and> length (filter (\<lambda>item. \<exists>t. date_of (get_prop item ''expiresAt'') = Some t \<and> t < 6000)
                 (fst (getAddresses True 6000 three_records))) = 2
     \<and> length (filter (\<lambda>item. \<exists>t. date_of (get_prop item ''expiresAt'') = Some t \<and> 6000 < t)
                 (fst (getAddresses True 6000 three_records))) = 1"
    by (simp add: stored get_prop_def)
  from cleanupExpired_prunes [OF w, of 6000 7000]
  have "length (fst (getAddresses True 6000 three_records)) = 3
     \<and> length (filter (\<lambda>item. \<exists>t. date_of (get_prop item ''expiresAt'') = Some t \<and> t < 6000)
                 (fst (getAddresses True 6000 three_records))) = 2
     \<and> length (filter (\<lambda>item. \<exists>t. date_of (get_prop item ''expiresAt'') = Some t \<and> 6000 < t)
                 (fst (getAddresses True 6000 three_records))) = 1
     \<longrightarrow> fst (cleanupExpired 6000 three_records) = 2
       \<and> length (fst (getAddresses True 7000 (snd (cleanupExpired 6000 three_records)))) = 1"
    by (rule conjunct2 [THEN conjunct2, THEN conjunct2])
  with scenario w show ?thesis
    by blast
qed

text \<open>
  Claim C6. The result of \<open>_writeToFile\<close> is not looked at (lines 417 to 421): on a file that
  cannot be written, with three records of which two have \<open>expiresAt\<close> in the past,
  \<open>cleanupExpired\<close> returns 2, the number of expired records, although it has removed none:
  the three records are all still retrievable, where the claim expects one.
\<close>

theorem cleanupExpired_unwritable:
  "fst (cleanupExpired 6000 three_records_read_only) = 2
   \<and> fst (getAddresses True 7000 (snd (cleanupExpired 6000 three_records_read_only))) =
       [[(''address'', JStr ''a@x.io''), (''expiresAt'', JIso 1000)],
        [(''address'', JStr ''b@x.io''), (''expiresAt'', JIso 5000)],
        [(''address'', JStr ''c@x.io''), (''expiresAt'', JIso 9000)]]"
  by (simp add: three_records_read_only_def three_records_def cleanupExpired_def getAddresses_def
      readFromFile_def initialize_def writeToFile_def not_expired_def date_after_def get_prop_def)

section \<open>Properties of the client\<close>

declare retry_loop.simps [simp del]

declare show_nat.simps [simp del]

declare bit_length.simps [simp del]

lemma sent_requests_append: "sent_requests (evs @ evs') = sent_requests evs @ sent_requests evs'"
  by (induction evs rule: sent_requests.induct) auto

lemma fetch_failure_cleared:
  "authorization (snd (fetch_failure what e w)) = None"
  "trace (snd (fetch_failure what e w)) = trace w"
  by (simp_all add: fetch_failure_def clearAuthToken_def)

lemma getEmails_world:
  "snd (getEmails p address password w) =
     (case send p POST Token (Some (Given address, password)) [] None w of
        (Inl e, w1) \<Rightarrow> clearAuthToken w1
      | (Inr authData, w1) \<Rightarrow>
          (case member authData ''token'' of
             Inl e \<Rightarrow> clearAuthToken w1
           | Inr token \<Rightarrow>
               clearAuthToken (snd (send p GET Messages None [(''page'', 1), (''limit'', 20)] None
                 (setAuthToken token w1)))))"
  by (simp add: getEmails_def Let_def fetch_failure_def clearAuthToken_def
      split: prod.splits sum.splits option.splits)

lemma getEmailContent_world:
  "snd (getEmailContent p messageId address password w) =
     (case send p POST Token (Some (Given address, password)) [] None w of
        (Inl e, w1) \<Rightarrow> clearAuthToken w1
      | (Inr authData, w1) \<Rightarrow>
          (case member authData ''token'' of
             Inl e \<Rightarrow> clearAuthToken w1
           | Inr token \<Rightarrow>
               clearAuthToken (snd (send p GET (MessageById messageId) None [] None
                 (setAuthToken token w1)))))"
  by (simp add: getEmailContent_def Let_def fetch_failure_def clearAuthToken_def
      split: prod.splits sum.splits)

lemma array_of_Some: "array_of v = Some xs \<longleftrightarrow> v = Some (JArr xs)"
  by (cases v rule: array_of.cases) auto

lemma array_of_empty_or_none:
  "\<forall>msgs. v = Some (JArr msgs) \<longrightarrow> msgs = [] \<Longrightarrow> array_of v = None \<or> array_of v = Some []"
  by (cases "array_of v") (auto simp: array_of_Some)

lemma member_truthy:
  "truthy v \<Longrightarrow>
     \<exists>x. member v k = Inr x \<and> (\<forall>ps. v = Some (JObj ps) \<longrightarrow> x = map_of ps k)
       \<and> ((\<forall>ps. v \<noteq> Some (JObj ps)) \<longrightarrow> x = None)"
  by (cases "(v, k)" rule: member.cases) auto

lemma letters: "\<forall>k \<in> set [0..<26]. char_of (97 + k :: nat) \<in> set ''abcdefghijklmnopqrstuvwxyz''"
  by code_simp

lemma letter_of: "k < 26 \<Longrightarrow> char_of (97 + k :: nat) \<in> set ''abcdefghijklmnopqrstuvwxyz''"
  using letters by (simp del: upt.simps set_upt add: atLeast_upt [symmetric])

lemma bit_length_upper: "n < 2 ^ bit_length n"
proof (induction n rule: bit_length.induct)
  case (1 n)
  show ?case
  proof (cases "n = 0")
    case True
    then show ?thesis
      by (simp add: bit_length.simps)
  next
    case False
    with "1.IH" have "n div 2 < 2 ^ bit_length (n div 2)"
      by simp
    then have "n < 2 * 2 ^ bit_length (n div 2)"
      by linarith
    with False show ?thesis
      by (subst bit_length.simps) simp
  qed
qed

lemma bit_length_lower: "0 < n \<Longrightarrow> 2 ^ (bit_length n - 1) \<le> n"
proof (induction n rule: bit_length.induct)
  case (1 n)
  show ?case
  proof (cases "n div 2 = 0")
    case True
    with "1.prems" have "bit_length n = 1"
      by (simp add: bit_length.simps [of n] bit_length.simps [of 0])
    with "1.prems" show ?thesis
      by simp
  next
    case False
    with "1.IH" "1.prems" have half: "2 ^ (bit_length (n div 2) - 1) \<le> n div 2"
      by simp
    from False have "0 < bit_length (n div 2)"
      by (simp add: bit_length.simps [of "n div 2"])
    then have "bit_length n - 1 = Suc (bit_length (n div 2) - 1)"
      using "1.prems" by (simp add: bit_length.simps [of n])
    with half show ?thesis
      by simp
  qed
qed

lemma bit_length_eq: "2 ^ k \<le> n \<Longrightarrow> n < 2 ^ Suc k \<Longrightarrow> bit_length n = Suc k"
proof -
  assume low: "2 ^ k \<le> n" and high: "n < 2 ^ Suc k"
  then have pos: "0 < n"
    by (metis gr0I not_less power_not_zero zero_neq_numeral le_zero_eq)
  have "(2::nat) ^ k < 2 ^ bit_length n"
    using low bit_length_upper [of n] by linarith
  then have "k < bit_length n"
    by simp
  moreover have "(2::nat) ^ (bit_length n - 1) < 2 ^ Suc k"
    using high bit_length_lower [OF pos] by linarith
  then have "bit_length n - 1 < Suc k"
    by (rule power_less_imp_less_exp [rotated]) simp
  ultimately show ?thesis
    by linarith
qed

text \<open>The rounding moves a number by at most one part in \<open>2 ^ 53\<close>.\<close>

lemma round53_bounds:
  "2 ^ 53 * round53 n \<le> (2 ^ 53 + 1) * n \<and> (2 ^ 53 - 1) * n \<le> 2 ^ 53 * round53 n"
proof (cases "bit_length n \<le> 53")
  case True
  then have "round53 n = n"
    by (simp add: round53_def)
  then show ?thesis
    by simp
next
  case False
  define b where "b = bit_length n - 53"
  define B :: nat where "B = 2 ^ b"
  define m where "m = n div B * B"
  define r where "r = n mod B"
  from False have pos: "0 < n"
    by (cases "n = 0") (simp_all add: bit_length.simps [of 0])
  from False have "bit_length n - 1 = b + 52"
    by (simp add: b_def)
  with bit_length_lower [OF pos] have "2 ^ (b + 52) \<le> n"
    by simp
  then have big: "4503599627370496 * B \<le> n"
    by (simp add: B_def power_add mult.commute)
  have n: "n = m + r"
    by (simp add: m_def r_def)
  have r: "r < B"
    by (simp add: r_def B_def)
  have up: "(n div B + 1) * B = m + B"
    by (simp add: m_def)
  have cases: "round53 n = (if 2 * r < B then m else if B < 2 * r then m + B
      else if even (n div B) then m else m + B)"
    unfolding round53_def Let_def b_def [symmetric] B_def [symmetric] r_def [symmetric] up
    by (simp add: m_def)
  have "9007199254740992 * round53 n \<le> 9007199254740993 * n
      \<and> 9007199254740991 * n \<le> 9007199254740992 * round53 n"
    using n r big unfolding cases by (auto split: if_splits)
  then show ?thesis
    by simp
qed

lemma floor_times_less:
  assumes "unit_double x" and "0 < c"
  shows "floor_times x c < c"
proof -
  define n where "n = mant x * c"
  define E :: nat where "E = 2 ^ expo x"
  from assms(1) have "mant x < 9007199254740992" and "Suc (mant x) \<le> E"
    by (simp_all add: unit_double_def E_def)
  then have "n < 9007199254740992 * c" and "n + c \<le> E * c"
    using assms(2) mult_le_mono1 [of "Suc (mant x)" E c] by (simp_all add: n_def)
  moreover have "9007199254740992 * round53 n \<le> 9007199254740993 * n"
    using round53_bounds [of n] by simp
  ultimately have "round53 n < c * E"
    by (simp add: mult.commute)
  then have "round53 n div E < c"
    by (simp add: E_def less_mult_imp_div_less)
  then show ?thesis
    by (simp add: floor_times_def n_def E_def)
qed

lemma floor_times_interval:
  assumes "unit_double x"
  shows "(real k \<le> real c * draw_value x * (1 - 1 / 2 ^ 53)
          \<and> real c * draw_value x * (1 + 1 / 2 ^ 53) < real k + 1 \<longrightarrow> floor_times x c = k)
     \<and> (floor_times x c = k \<longrightarrow>
          real k \<le> real c * draw_value x * (1 + 1 / 2 ^ 53)
          \<and> real c * draw_value x * (1 - 1 / 2 ^ 53) < real k + 1)"
proof -
  define n where "n = mant x * c"
  define E :: nat where "E = 2 ^ expo x"
  define R where "R = round53 n"
  have E: "0 < E"
    by (simp add: E_def)
  have product: "real c * draw_value x = real n / real E"
    by (simp add: draw_value_def n_def E_def)
  have "9007199254740992 * R \<le> 9007199254740993 * n" "9007199254740991 * n \<le> 9007199254740992 * R"
    using round53_bounds [of n] by (simp_all add: R_def)
  then have "real (9007199254740992 * R) \<le> real (9007199254740993 * n)"
    "real (9007199254740991 * n) \<le> real (9007199254740992 * R)"
    by (simp_all only: of_nat_le_iff)
  then have upper: "real R \<le> real n * (1 + 1 / 2 ^ 53)"
    and lower: "real n * (1 - 1 / 2 ^ 53) \<le> real R"
    by (simp_all add: field_simps)
  have floor: "floor_times x c = k \<longleftrightarrow> real k * real E \<le> real R \<and> real R < (real k + 1) * real E"
  proof -
    have "floor_times x c = k \<longleftrightarrow> R div E = k"
      by (simp add: floor_times_def R_def n_def E_def)
    also have "\<dots> \<longleftrightarrow> k * E \<le> R \<and> R < Suc k * E"
    proof
      assume "R div E = k"
      then show "k * E \<le> R \<and> R < Suc k * E"
        using E dividend_less_div_times [of E R] by auto
    next
      assume "k * E \<le> R \<and> R < Suc k * E"
      then show "R div E = k"
        by (intro div_nat_eqI) (simp_all add: mult.commute)
    qed
    also have "\<dots> \<longleftrightarrow> real (k * E) \<le> real R \<and> real R < real (Suc k * E)"
      by (simp only: of_nat_le_iff of_nat_less_iff)
    also have "\<dots> \<longleftrightarrow> real k * real E \<le> real R \<and> real R < (real k + 1) * real E"
      by (simp add: algebra_simps)
    finally show ?thesis .
  qed
  have scale: "real k \<le> real n / real E * u \<longleftrightarrow> real k * real E \<le> real n * u"
    "real n / real E * u < real k + 1 \<longleftrightarrow> real n * u < (real k + 1) * real E" for u
    using E by (simp_all add: field_simps)
  show ?thesis
    unfolding product floor scale using upper lower by auto
qed

text \<open>
  A multiple of the unit of the last place is kept: rounding does not take a product below a
  whole number that it has reached.
\<close>

lemma round53_floor: "(n div 2 ^ (bit_length n - 53)) * 2 ^ (bit_length n - 53) \<le> round53 n"
  by (simp add: round53_def Let_def)

lemma round53_keeps_multiple:
  assumes "bit_length n - 53 \<le> e" and "k * 2 ^ e \<le> n"
  shows "k * 2 ^ e \<le> round53 n"
proof -
  define b where "b = bit_length n - 53"
  define m where "m = k * 2 ^ (e - b)"
  from assms(1) have "(2::nat) ^ e = 2 ^ (e - b) * 2 ^ b"
    by (simp add: b_def power_add [symmetric])
  then have multiple: "k * 2 ^ e = m * 2 ^ b"
    by (simp add: m_def)
  with assms(2) have "m * 2 ^ b \<le> n"
    by simp
  then have "m \<le> n div 2 ^ b"
    by (simp add: less_eq_div_iff_mult_less_eq)
  then have "m * 2 ^ b \<le> (n div 2 ^ b) * 2 ^ b"
    by simp
  also have "\<dots> \<le> round53 n"
    unfolding b_def by (rule round53_floor)
  finally show ?thesis
    by (simp add: multiple)
qed

lemma product_digits:
  assumes "unit_double x" and "c \<le> 2 ^ 53"
  shows "bit_length (mant x * c) - 53 \<le> expo x"
proof (cases "mant x * c = 0")
  case True
  have "bit_length 0 = 0"
    by (simp add: bit_length.simps)
  with True show ?thesis
    by (simp only: zero_diff zero_le)
next
  case False
  define n where "n = mant x * c"
  from False have pos: "0 < n"
    by (simp add: n_def)
  from assms have "n < 2 ^ expo x * 2 ^ 53"
    unfolding n_def unit_double_def using pos
    by (metis mult_less_le_imp_less n_def nat_0_less_mult_iff zero_le)
  then have "n < 2 ^ (expo x + 53)"
    by (simp add: power_add)
  with bit_length_lower [OF pos] have "(2::nat) ^ (bit_length n - 1) < 2 ^ (expo x + 53)"
    by linarith
  then have "bit_length n - 1 < expo x + 53"
    by (rule power_less_imp_less_exp [rotated]) simp
  then show ?thesis
    by (simp add: n_def)
qed

lemma floor_times_at_least:
  assumes "unit_double x" and "c \<le> 2 ^ 53" and "real k \<le> real c * draw_value x"
  shows "k \<le> floor_times x c"
proof -
  define E :: nat where "E = 2 ^ expo x"
  have E: "0 < E"
    by (simp add: E_def)
  from assms(3) have "real k * real E \<le> real (mant x * c)"
    using E by (simp add: draw_value_def E_def field_simps)
  then have "real (k * E) \<le> real (mant x * c)"
    by simp
  then have "k * E \<le> mant x * c"
    by (simp only: of_nat_le_iff)
  then have "k * E \<le> round53 (mant x * c)"
    unfolding E_def using product_digits [OF assms(1,2)] by (intro round53_keeps_multiple)
  then show ?thesis
    using E by (simp add: floor_times_def E_def less_eq_div_iff_mult_less_eq)
qed

lemma floor_times_sharp:
  assumes "unit_double x" and "c \<le> 2 ^ 53"
  shows "(real k \<le> real c * draw_value x
          \<and> real c * draw_value x * (1 + 1 / 2 ^ 53) < real k + 1 \<longrightarrow> floor_times x c = k)
     \<and> (floor_times x c = k \<longrightarrow>
          real k \<le> real c * draw_value x * (1 + 1 / 2 ^ 53)
          \<and> real c * draw_value x < real k + 1)"
proof (intro conjI impI)
  assume inside: "real k \<le> real c * draw_value x
          \<and> real c * draw_value x * (1 + 1 / 2 ^ 53) < real k + 1"
  then have low: "k \<le> floor_times x c"
    using assms by (intro floor_times_at_least) simp_all
  have "\<not> Suc k \<le> floor_times x c"
  proof
    assume "Suc k \<le> floor_times x c"
    then have "real (Suc k) \<le> real (floor_times x c)"
      by (simp only: of_nat_le_iff)
    also have "\<dots> \<le> real c * draw_value x * (1 + 1 / 2 ^ 53)"
      using floor_times_interval [OF assms(1), of "floor_times x c" c] by simp
    finally have "real (Suc k) \<le> real c * draw_value x * (1 + 1 / 2 ^ 53)" .
    with inside show False
      by simp
  qed
  with low show "floor_times x c = k"
    by simp
next
  assume eq: "floor_times x c = k"
  with floor_times_interval [OF assms(1), of k c]
  show "real k \<le> real c * draw_value x * (1 + 1 / 2 ^ 53)"
    by simp
  show "real c * draw_value x < real k + 1"
  proof (rule ccontr)
    assume "\<not> real c * draw_value x < real k + 1"
    then have "real (Suc k) \<le> real c * draw_value x"
      by simp
    then have "Suc k \<le> floor_times x c"
      using assms by (intro floor_times_at_least)
    with eq show False
      by simp
  qed
qed

lemma round53_small: "n < 2 ^ 53 \<Longrightarrow> round53 n = n"
proof -
  assume small: "n < 2 ^ 53"
  have "bit_length n \<le> 53"
  proof (cases "n = 0")
    case True
    then show ?thesis
      by (simp add: bit_length.simps [of 0])
  next
    case False
    then have "(2::nat) ^ (bit_length n - 1) < 2 ^ 53"
      using bit_length_lower [of n] small by linarith
    then have "bit_length n - 1 < 53"
      by (rule power_less_imp_less_exp [rotated]) simp
    then show ?thesis
      by simp
  qed
  then show ?thesis
    by (simp add: round53_def)
qed

lemma floor_times_half: "floor_times one_half 5 = 2" "floor_times one_half 26 = 13"
  by (simp_all add: floor_times_def one_half_def round53_small)

lemma floor_times_three_fifths: "floor_times three_fifths 5 = 3"
proof -
  have "bit_length 27021597764222975 = Suc 54"
    by (rule bit_length_eq) simp_all
  then have "round53 27021597764222975 = 27021597764222976"
    by (simp add: round53_def)
  then show ?thesis
    by (simp add: floor_times_def three_fifths_def)
qed

lemma retry_loop_failure:
  "attempt \<le> maxR \<Longrightarrow> apiCall w = (Inl e, w1) \<Longrightarrow>
   retry_loop maxR delay apiCall attempt w =
     (if attempt = maxR then (Inl (exhausted maxR e), w1)
      else retry_loop maxR delay apiCall (Suc attempt) (pause delay attempt e w1))"
  by (subst retry_loop.simps) simp

lemma retry_loop_success:
  "attempt \<le> maxR \<Longrightarrow> apiCall w = (Inr v, w1) \<Longrightarrow>
   retry_loop maxR delay apiCall attempt w = (Inr (Some v), w1)"
  by (subst retry_loop.simps) simp

lemma or_default_pos: "0 < d \<Longrightarrow> 0 < or_default x d"
  by (simp add: or_default_def split: option.splits)

lemma EmailService_pos:
  "0 < maxRetries (EmailService cfg)" "0 < retryDelay (EmailService cfg)"
  by (simp_all add: EmailService_def or_default_pos)

lemma retry_loop_two_failures:
  assumes "apiCall w = (Inl e1, w1)"
      and "apiCall (pause delay k e1 w1) = (Inl e2, w2)"
      and "apiCall (pause delay (Suc k) e2 w2) = (Inr v, w3)"
      and "Suc (Suc k) \<le> maxR"
  shows "retry_loop maxR delay apiCall k w = (Inr (Some v), w3)"
proof -
  have "retry_loop maxR delay apiCall (Suc (Suc k)) (pause delay (Suc k) e2 w2) = (Inr (Some v), w3)"
    using assms(3,4) by (simp add: retry_loop_success [where apiCall = apiCall])
  then have "retry_loop maxR delay apiCall (Suc k) (pause delay k e1 w1) = (Inr (Some v), w3)"
    using assms(2,4) by (simp add: retry_loop_failure [where apiCall = apiCall and e = e2 and ?w1.0 = w2])
  then show ?thesis
    using assms(1,4) by (simp add: retry_loop_failure [where apiCall = apiCall and e = e1 and ?w1.0 = w1])
qed

lemma show_nat_digit: "n < 10 \<Longrightarrow> show_nat n = [char_of (48 + n)]"
  by (subst show_nat.simps) simp

lemma show_nat_3: "show_nat 3 = ''3''"
  by (simp add: show_nat_digit) code_simp

lemma show_nat_5: "show_nat 5 = ''5''"
  by (simp add: show_nat_digit) code_simp

lemma retry_loop_always_fails:
  assumes fails: "\<forall>w. \<exists>e w'. apiCall w = (Inl e, w')"
  shows "k \<le> maxR \<Longrightarrow>
     \<exists>e w0 w'. apiCall w0 = (Inl e, w') \<and> retry_loop maxR delay apiCall k w = (Inl (exhausted maxR e), w')"
proof (induction "maxR - k" arbitrary: k w)
  case 0
  then have k: "k = maxR"
    by simp
  from fails obtain e w' where call: "apiCall w = (Inl e, w')"
    by blast
  then have "retry_loop maxR delay apiCall k w = (Inl (exhausted maxR e), w')"
    using k by (simp add: retry_loop_failure [where apiCall = apiCall])
  with call show ?case
    by blast
next
  case (Suc n)
  then have k: "k < maxR" "n = maxR - Suc k" "Suc k \<le> maxR"
    by simp_all
  from fails obtain e w' where call: "apiCall w = (Inl e, w')"
    by blast
  then have "retry_loop maxR delay apiCall k w =
      retry_loop maxR delay apiCall (Suc k) (pause delay k e w')"
    using k by (simp add: retry_loop_failure [where apiCall = apiCall])
  with Suc.hyps(1) [OF k(2,3), of "pause delay k e w'"] show ?case
    by simp
qed

lemma delete_call_failure:
  "delete_call p pth token w0 = (Inl e, w') \<Longrightarrow> p (sent_requests (trace w')) = Failure e"
  by (auto simp: delete_call_def send_def Let_def split: http_outcome.splits)

lemma retry_loop_all_fail:
  assumes fails: "\<forall>k. 1 \<le> k \<and> k \<le> n \<longrightarrow> apiCall (start k) = (Inl (es k), after k)"
      and waits: "\<forall>k. 1 \<le> k \<and> k < n \<longrightarrow> start (Suc k) = pause delay k (es k) (after k)"
  shows "1 \<le> j \<Longrightarrow> j \<le> n \<Longrightarrow>
     retry_loop n delay apiCall j (start j) = (Inl (exhausted n (es n)), after n)"
proof (induction "n - j" arbitrary: j)
  case 0
  then have j: "j = n"
    by simp
  with fails "0.prems" have "apiCall (start n) = (Inl (es n), after n)"
    by blast
  then show ?case
    using j by (simp add: retry_loop_failure [where apiCall = apiCall])
next
  case (Suc m)
  then have j: "j < n" "m = n - Suc j" "1 \<le> Suc j" "Suc j \<le> n"
    by simp_all
  from fails Suc.prems have call: "apiCall (start j) = (Inl (es j), after j)"
    by blast
  from waits Suc.prems j(1) have next_start: "start (Suc j) = pause delay j (es j) (after j)"
    by blast
  have "retry_loop n delay apiCall j (start j) = retry_loop n delay apiCall (Suc j) (start (Suc j))"
    using call j(1) by (simp add: retry_loop_failure [where apiCall = apiCall] next_start)
  with Suc.hyps(1) [OF j(2,3,4)] show ?case
    by simp
qed

lemma retry_loop_status:
  "retry_loop maxR delay apiCall k w = (Inl e, w') \<Longrightarrow> status e = None"
proof (induction maxR delay apiCall k w rule: retry_loop.induct)
  case (1 maxR delay apiCall attempt w)
  show ?case
  proof (cases "attempt \<le> maxR")
    case False
    with "1.prems" show ?thesis
      by (subst (asm) retry_loop.simps) simp
  next
    case True
    show ?thesis
    proof (cases "apiCall w")
      case (Pair r w1)
      show ?thesis
      proof (cases r)
        case (Inr v)
        with "1.prems" True Pair show ?thesis
          by (simp add: retry_loop_success [where apiCall = apiCall])
      next
        case (Inl error)
        show ?thesis
        proof (cases "attempt = maxR")
          case last: True
          with "1.prems" True Pair Inl show ?thesis
            by (auto simp: retry_loop_failure [where apiCall = apiCall] exhausted_def Error_def)
        next
          case False
          from Pair Inl have call: "apiCall w = (Inl error, w1)"
            by simp
          have "retry_loop maxR delay apiCall (attempt + 1) (pause delay attempt error w1) = (Inl e, w')"
            using "1.prems" True False call by (simp add: retry_loop_failure [where apiCall = apiCall])
          with "1.IH" [OF True call [symmetric] refl False] show ?thesis
            by simp
        qed
      qed
    qed
  qed
qed

lemma withRetry_status: "withRetry svc apiCall options w = (Inl e, w') \<Longrightarrow> status e = None"
  unfolding withRetry_def by (rule retry_loop_status)

lemma getAvailableDomain_status: "getAvailableDomain svc p w = (Inl e, w') \<Longrightarrow> status e = None"
  by (auto simp: getAvailableDomain_def Error_def split: prod.splits sum.splits)

lemma create_failure_generic:
  "status e = None \<Longrightarrow>
   create_failure e = Error (''Failed to create email address: '' @ message e @
                            ''. Please check your internet connection and try again.'')"
  by (simp add: create_failure_def)

lemma createEmailAddress_failure_generic:
  assumes "createEmailAddress svc p rnd password w = (Inl e, w')"
  shows "\<exists>m. e = Error (''Failed to create email address: '' @ m @
                        ''. Please check your internet connection and try again.'')"
proof -
  let ?pw = "case password of None \<Rightarrow> Some (JStr ''Password123!'') | Some v \<Rightarrow> Some v"
  show ?thesis
  proof (cases "getAvailableDomain svc p w")
    case (Pair r w1)
    show ?thesis
    proof (cases r)
      case (Inl e0)
      with Pair have "status e0 = None"
        by (auto dest: getAvailableDomain_status)
      with assms Pair Inl show ?thesis
        by (auto simp: createEmailAddress_def create_failure_generic)
    next
      case (Inr domain)
      show ?thesis
      proof (cases "truthy domain")
        case False
        with assms Pair Inr show ?thesis
          by (auto simp: createEmailAddress_def create_failure_generic Error_def)
      next
        case True
        let ?w2 = "console_log (DebugAddress (Generated (username rnd) domain)) w1"
        obtain r2 w3 where retry: "withRetry svc (account_call p (Generated (username rnd) domain) ?pw)
            create_options ?w2 = (r2, w3)"
          by (cases "withRetry svc (account_call p (Generated (username rnd) domain) ?pw) create_options ?w2")
        show ?thesis
        proof (cases r2)
          case (Inl e0)
          with retry have "status e0 = None"
            by (auto dest: withRetry_status)
          with assms Pair Inr True retry Inl show ?thesis
            by (auto simp: createEmailAddress_def Let_def create_failure_generic)
        next
          case (Inr v)
          with assms Pair \<open>r = Inr domain\<close> True retry show ?thesis
            by (simp add: createEmailAddress_def Let_def)
        qed
      qed
    qed
  qed
qed

lemma retry_loop_same_error:
  assumes "\<forall>w. fst (apiCall w) = Inl e" and "k \<le> maxR"
  shows "fst (retry_loop maxR delay apiCall k w) = Inl (exhausted maxR e)"
proof -
  have fails: "\<forall>w. \<exists>e w'. apiCall w = (Inl e, w')"
    using assms(1) by (metis prod.collapse)
  from retry_loop_always_fails [OF fails assms(2), where w = w and delay = delay]
  obtain e' w0 w' where "apiCall w0 = (Inl e', w')"
    and "retry_loop maxR delay apiCall k w = (Inl (exhausted maxR e'), w')"
    by blast
  moreover from this(1) assms(1) have "e' = e"
    by (metis fst_conv sum.inject(1))
  ultimately show ?thesis
    by simp
qed

lemma rejecting_domains:
  "getAvailableDomain default_service rejecting clean_world =
     (Inr (Some (JStr ''example.com'')),
      \<lparr>authorization = None,
       trace = [Sent \<lparr>http_method = GET, path = Domains, body = None, params = [], auth = None\<rparr>,
                Logged (DebugDomains (Some (JArr [JObj [(''domain'', JStr ''example.com'')]]))),
                Logged (UsingDomain (Some (JStr ''example.com'')))]\<rparr>)"
proof -
  have "domains_call rejecting clean_world =
     (Inr (Some (JStr ''example.com'')),
      \<lparr>authorization = None,
       trace = [Sent \<lparr>http_method = GET, path = Domains, body = None, params = [], auth = None\<rparr>,
                Logged (DebugDomains (Some (JArr [JObj [(''domain'', JStr ''example.com'')]]))),
                Logged (UsingDomain (Some (JStr ''example.com'')))]\<rparr>)"
    by (simp add: domains_call_def send_def rejecting_def clean_world_def console_log_def)
  then show ?thesis
    by (simp add: getAvailableDomain_def withRetry_def
        retry_loop_success [where apiCall = "domains_call rejecting"]
        default_service_def EmailService_def or_default_def no_options_def)
qed

lemma rejecting_accounts: "fst (account_call rejecting address password w) = Inl unprocessable"
  by (simp add: account_call_def send_def rejecting_def sleep_def sent_requests_append)

subsection \<open>Retrying\<close>

text \<open>
  Claim C2. In the retry loop, an attempt \<open>k\<close> that fails and is not the last is followed by
  the log line and by a wait of \<open>delay * 2 ^ (k - 1)\<close> when the failure carries the status
  429, of \<open>delay\<close> for any other failure, and then by attempt \<open>k + 1\<close>. In particular, with 3
  attempts allowed, a call that fails with status 429 on attempts 1 and 2 and succeeds on
  attempt 3 succeeds as a whole, and its third attempt starts right after a wait of
  \<open>delay * 2\<close>.
\<close>

theorem withRetry_backoff:
  "(\<forall>apiCall attempt w e w1.
      1 \<le> attempt \<and> attempt < maxR \<and> apiCall w = (Inl e, w1) \<longrightarrow>
        retry_loop maxR delay apiCall attempt w =
          retry_loop maxR delay apiCall (Suc attempt)
            (w1\<lparr>trace := trace w1 @
                  [Logged (AttemptFailed attempt (message e)),
                   Slept (if status e = Some 429 then delay * 2 ^ (attempt - 1) else delay)]\<rparr>))
   \<and> (\<forall>apiCall w e1 w1 e2 w2 v w3.
        or_default (opt_maxRetries options) (maxRetries svc) = 3
        \<and> or_default (opt_retryDelay options) (retryDelay svc) = delay
        \<and> apiCall w = (Inl e1, w1) \<and> status e1 = Some 429
        \<and> apiCall (w1\<lparr>trace := trace w1 @ [Logged (AttemptFailed 1 (message e1)), Slept delay]\<rparr>)
            = (Inl e2, w2) \<and> status e2 = Some 429
        \<and> apiCall (w2\<lparr>trace := trace w2 @ [Logged (AttemptFailed 2 (message e2)), Slept (delay * 2)]\<rparr>)
            = (Inr v, w3)
        \<longrightarrow> withRetry svc apiCall options w = (Inr (Some v), w3))"
proof (intro conjI allI impI)
  fix apiCall :: "'a action" and attempt w e w1
  assume a: "1 \<le> attempt \<and> attempt < maxR \<and> apiCall w = (Inl e, w1)"
  have "pause delay attempt e w1 = w1\<lparr>trace := trace w1 @
                  [Logged (AttemptFailed attempt (message e)),
                   Slept (if status e = Some 429 then delay * 2 ^ (attempt - 1) else delay)]\<rparr>"
    by (simp add: pause_def sleep_def console_log_def retry_wait_def)
  then show "retry_loop maxR delay apiCall attempt w =
          retry_loop maxR delay apiCall (Suc attempt)
            (w1\<lparr>trace := trace w1 @
                  [Logged (AttemptFailed attempt (message e)),
                   Slept (if status e = Some 429 then delay * 2 ^ (attempt - 1) else delay)]\<rparr>)"
    using a retry_loop_failure [of attempt maxR apiCall w e w1 delay] by simp
next
  fix apiCall :: "'b action" and w e1 w1 e2 w2 v w3
  assume a: "or_default (opt_maxRetries options) (maxRetries svc) = 3
        \<and> or_default (opt_retryDelay options) (retryDelay svc) = delay
        \<and> apiCall w = (Inl e1, w1) \<and> status e1 = Some 429
        \<and> apiCall (w1\<lparr>trace := trace w1 @ [Logged (AttemptFailed 1 (message e1)), Slept delay]\<rparr>)
            = (Inl e2, w2) \<and> status e2 = Some 429
        \<and> apiCall (w2\<lparr>trace := trace w2 @ [Logged (AttemptFailed 2 (message e2)), Slept (delay * 2)]\<rparr>)
            = (Inr v, w3)"
  have p1: "pause delay 1 e1 w1 = w1\<lparr>trace := trace w1 @ [Logged (AttemptFailed 1 (message e1)), Slept delay]\<rparr>"
    using a by (simp add: pause_def sleep_def console_log_def retry_wait_def)
  have p2: "pause delay 2 e2 w2 = w2\<lparr>trace := trace w2 @ [Logged (AttemptFailed 2 (message e2)), Slept (delay * 2)]\<rparr>"
    using a by (simp add: pause_def sleep_def console_log_def retry_wait_def)
  have c1: "apiCall w = (Inl e1, w1)"
    using a by simp
  have c2: "apiCall (pause delay 1 e1 w1) = (Inl e2, w2)"
    unfolding p1 using a by blast
  have c3: "apiCall (pause delay 2 e2 w2) = (Inr v, w3)"
    unfolding p2 using a by blast
  have c3': "apiCall (pause delay (Suc 1) e2 w2) = (Inr v, w3)"
    using c3 by (simp only: Suc_1)
  have first: "retry_loop 3 delay apiCall 1 w = (Inr (Some v), w3)"
    by (rule retry_loop_two_failures [where apiCall = apiCall, OF c1 c2 c3']) simp
  show "withRetry svc apiCall options w = (Inr (Some v), w3)"
    using a first by (simp add: withRetry_def)
qed

theorem withRetry_backoff_witness:
  "or_default (opt_maxRetries no_options) (maxRetries default_service) = 3
   \<and> or_default (opt_retryDelay no_options) (retryDelay default_service) = 1000
   \<and> sample_delete clean_world = (Inl too_many, after_first) \<and> status too_many = Some 429
   \<and> sample_delete (after_first\<lparr>trace := trace after_first @
         [Logged (AttemptFailed 1 (message too_many)), Slept 1000]\<rparr>) = (Inl too_many, after_second)
   \<and> sample_delete (after_second\<lparr>trace := trace after_second @
         [Logged (AttemptFailed 2 (message too_many)), Slept (1000 * 2)]\<rparr>) = (Inr True, after_third)
   \<and> withRetry default_service sample_delete no_options clean_world = (Inr (Some True), after_third)
   \<and> (1 \<le> (1::nat) \<and> (1::nat) < 3
      \<and> retry_loop 3 1000 sample_delete 1 clean_world =
          retry_loop 3 1000 sample_delete (Suc 1)
            (after_first\<lparr>trace := trace after_first @
               [Logged (AttemptFailed 1 (message too_many)),
                Slept (if status too_many = Some 429 then 1000 * 2 ^ (1 - 1) else 1000)]\<rparr>))"
proof -
  have h1: "or_default (opt_maxRetries no_options) (maxRetries default_service) = 3"
    and h2: "or_default (opt_retryDelay no_options) (retryDelay default_service) = 1000"
    by (simp_all add: or_default_def no_options_def default_service_def EmailService_def)
  have h3: "sample_delete clean_world = (Inl too_many, after_first)"
    by (simp add: sample_delete_def delete_call_def send_def clean_world_def limited_twice_def
        after_first_def delete_request_def)
  have h4: "status too_many = Some 429"
    by (simp add: too_many_def)
  have h5: "sample_delete (after_first\<lparr>trace := trace after_first @
         [Logged (AttemptFailed 1 (message too_many)), Slept 1000]\<rparr>) = (Inl too_many, after_second)"
    by (simp add: sample_delete_def delete_call_def send_def limited_twice_def
        after_first_def after_second_def delete_request_def)
  have h6: "sample_delete (after_second\<lparr>trace := trace after_second @
         [Logged (AttemptFailed 2 (message too_many)), Slept (1000 * 2)]\<rparr>) = (Inr True, after_third)"
    by (simp add: sample_delete_def delete_call_def send_def limited_twice_def
        after_second_def after_third_def delete_request_def)
  note backoff = withRetry_backoff [where maxR = 3 and delay = 1000 and options = no_options
      and svc = default_service]
  have scenario: "withRetry default_service sample_delete no_options clean_world = (Inr (Some True), after_third)"
    using backoff [THEN conjunct2, rule_format, of sample_delete clean_world too_many after_first
        too_many after_second True after_third] h1 h2 h3 h4 h5 h6
    by blast
  have step: "retry_loop 3 1000 sample_delete 1 clean_world =
          retry_loop 3 1000 sample_delete (Suc 1)
            (after_first\<lparr>trace := trace after_first @
               [Logged (AttemptFailed 1 (message too_many)),
                Slept (if status too_many = Some 429 then 1000 * 2 ^ (1 - 1) else 1000)]\<rparr>)"
    using backoff [THEN conjunct1, rule_format, of 1 sample_delete clean_world too_many after_first] h3
    by simp
  from h1 h2 h3 h4 h5 h6 scenario step show ?thesis
    by simp
qed

text \<open>
  Claim C4. Take a service as the constructor makes it, and let \<open>n\<close> be the number of
  attempts and \<open>delay\<close> the base delay that \<open>withRetry\<close> works with. When the operation fails
  on each of the \<open>n\<close> attempts (attempt \<open>k\<close> starts in the state \<open>start k\<close>, fails with the error
  \<open>es k\<close> and leaves the state \<open>after k\<close>; the next attempt starts after the log line and the
  wait), \<open>withRetry\<close> ends, in the state the last attempt left, with a failure whose message
  holds \<open>n\<close> and the message of the last error. It is a total function, so the call neither
  runs on for ever nor returns a value. In particular, with 3 attempts and a provider that
  answers every request with the status 429, a retried request fails with
  \<open>Operation failed after 3 attempts: \<close> followed by the message of the provider's last answer.
\<close>

theorem withRetry_exhausted:
  "(n = or_default (opt_maxRetries options) (maxRetries (EmailService cfg))
    \<and> delay = or_default (opt_retryDelay options) (retryDelay (EmailService cfg))
    \<and> start 1 = w
    \<and> (\<forall>k. 1 \<le> k \<and> k \<le> n \<longrightarrow> apiCall (start k) = (Inl (es k), after k))
    \<and> (\<forall>k. 1 \<le> k \<and> k < n \<longrightarrow>
          start (Suc k) = (after k)\<lparr>trace := trace (after k) @
            [Logged (AttemptFailed k (message (es k))),
             Slept (if status (es k) = Some 429 then delay * 2 ^ (k - 1) else delay)]\<rparr>)
    \<longrightarrow> withRetry (EmailService cfg) apiCall options w =
           (Inl \<lparr>message = ''Operation failed after '' @ show_nat n @ '' attempts: '' @ message (es n),
                  status = None\<rparr>, after n))
   \<and> ((\<forall>reqs. \<exists>m. p reqs = Failure \<lparr>message = m, status = Some 429\<rparr>) \<longrightarrow>
        (\<exists>m w'. withRetry (EmailService \<lparr>cfg_maxRetries = Some 3, cfg_retryDelay = d\<rparr>)
                   (delete_call p pth token) no_options w0 =
                 (Inl \<lparr>message = ''Operation failed after 3 attempts: '' @ m, status = None\<rparr>, w')
               \<and> p (sent_requests (trace w')) = Failure \<lparr>message = m, status = Some 429\<rparr>))"
proof (intro conjI impI)
  assume run: "n = or_default (opt_maxRetries options) (maxRetries (EmailService cfg))
    \<and> delay = or_default (opt_retryDelay options) (retryDelay (EmailService cfg))
    \<and> start 1 = w
    \<and> (\<forall>k. 1 \<le> k \<and> k \<le> n \<longrightarrow> apiCall (start k) = (Inl (es k), after k))
    \<and> (\<forall>k. 1 \<le> k \<and> k < n \<longrightarrow>
          start (Suc k) = (after k)\<lparr>trace := trace (after k) @
            [Logged (AttemptFailed k (message (es k))),
             Slept (if status (es k) = Some 429 then delay * 2 ^ (k - 1) else delay)]\<rparr>)"
  then have attempts: "n = or_default (opt_maxRetries options) (maxRetries (EmailService cfg))"
    and base: "delay = or_default (opt_retryDelay options) (retryDelay (EmailService cfg))"
    and first: "start 1 = w"
    and fails: "\<forall>k. 1 \<le> k \<and> k \<le> n \<longrightarrow> apiCall (start k) = (Inl (es k), after k)"
    and waits: "\<forall>k. 1 \<le> k \<and> k < n \<longrightarrow>
          start (Suc k) = (after k)\<lparr>trace := trace (after k) @
            [Logged (AttemptFailed k (message (es k))),
             Slept (if status (es k) = Some 429 then delay * 2 ^ (k - 1) else delay)]\<rparr>"
    by blast+
  have "1 \<le> n"
    using or_default_pos [OF EmailService_pos(1), of "opt_maxRetries options" cfg] attempts by simp
  moreover have "\<forall>k. 1 \<le> k \<and> k < n \<longrightarrow> start (Suc k) = pause delay k (es k) (after k)"
    using waits by (simp add: pause_def sleep_def console_log_def retry_wait_def)
  ultimately have "retry_loop n delay apiCall 1 (start 1) = (Inl (exhausted n (es n)), after n)"
    using fails by (intro retry_loop_all_fail) simp_all
  then show "withRetry (EmailService cfg) apiCall options w =
           (Inl \<lparr>message = ''Operation failed after '' @ show_nat n @ '' attempts: '' @ message (es n),
                  status = None\<rparr>, after n)"
    using attempts base first by (simp add: withRetry_def exhausted_def Error_def)
next
  assume limited: "\<forall>reqs. \<exists>m. p reqs = Failure \<lparr>message = m, status = Some 429\<rparr>"
  let ?call = "delete_call p pth token"
  have "\<forall>w. \<exists>e w'. ?call w = (Inl e, w')"
  proof
    fix w1 :: world
    let ?reqs = "sent_requests (trace w1 @ [Sent \<lparr>http_method = DELETE, path = pth, body = None,
        params = [], auth = Some (Bearer token)\<rparr>])"
    from limited obtain m where "p ?reqs = Failure \<lparr>message = m, status = Some 429\<rparr>"
      by blast
    then show "\<exists>e w'. ?call w1 = (Inl e, w')"
      by (simp add: delete_call_def send_def Let_def)
  qed
  from retry_loop_always_fails [OF this, where k = 1 and maxR = 3 and delay = "or_default d 1000" and w = w0]
  obtain e w1 w' where last: "?call w1 = (Inl e, w')"
    and result: "retry_loop 3 (or_default d 1000) ?call 1 w0 = (Inl (exhausted 3 e), w')"
    by auto
  from delete_call_failure [OF last] limited have e: "p (sent_requests (trace w')) = Failure e" "status e = Some 429"
    by (auto, metis err.select_convs(2) http_outcome.inject(2))
  then have "e = \<lparr>message = message e, status = Some 429\<rparr>"
    by simp
  with e result show "\<exists>m w'. withRetry (EmailService \<lparr>cfg_maxRetries = Some 3, cfg_retryDelay = d\<rparr>)
                     ?call no_options w0 =
                   (Inl \<lparr>message = ''Operation failed after 3 attempts: '' @ m, status = None\<rparr>, w')
                 \<and> p (sent_requests (trace w')) = Failure \<lparr>message = m, status = Some 429\<rparr>"
    by (intro exI [of _ "message e"] exI [of _ w'])
      (simp add: withRetry_def EmailService_def or_default_def no_options_def exhausted_def Error_def show_nat_3)
qed

theorem withRetry_exhausted_witness:
  "or_default (opt_maxRetries no_options) (maxRetries default_service) = 3
   \<and> or_default (opt_retryDelay no_options) (retryDelay default_service) = 1000
   \<and> failing_start 1 = clean_world
   \<and> (\<forall>k. failing_delete (failing_start k) = (Inl too_many, failing_after k))
   \<and> (\<forall>k. failing_start (Suc (Suc k)) = (failing_after (Suc k))\<lparr>trace := trace (failing_after (Suc k)) @
            [Logged (AttemptFailed (Suc k) (message too_many)), Slept (1000 * 2 ^ k)]\<rparr>)
   \<and> status too_many = Some 429
   \<and> (\<forall>reqs. \<exists>m. always_limited reqs = Failure \<lparr>message = m, status = Some 429\<rparr>)
   \<and> withRetry default_service failing_delete no_options clean_world =
       (Inl \<lparr>message = ''Operation failed after 3 attempts: Request failed with status code 429'',
             status = None\<rparr>, failing_after 3)
   \<and> trace (failing_after 3) =
       [Sent delete_request, Logged (AttemptFailed 1 (message too_many)), Slept 1000,
        Sent delete_request, Logged (AttemptFailed 2 (message too_many)), Slept 2000,
        Sent delete_request]
   \<and> (\<exists>m w'. withRetry (EmailService \<lparr>cfg_maxRetries = Some 3, cfg_retryDelay = None\<rparr>)
          failing_delete no_options clean_world =
            (Inl \<lparr>message = ''Operation failed after 3 attempts: '' @ m, status = None\<rparr>, w'))"
proof -
  let ?cfg = "\<lparr>cfg_maxRetries = None, cfg_retryDelay = None\<rparr>"
  have call: "failing_delete w = (Inl too_many, w\<lparr>trace := trace w @ [Sent delete_request]\<rparr>)" for w
    by (simp add: failing_delete_def delete_call_def send_def always_limited_def delete_request_def)
  have h1: "or_default (opt_maxRetries no_options) (maxRetries default_service) = 3"
    and h2: "or_default (opt_retryDelay no_options) (retryDelay default_service) = 1000"
    by (simp_all add: or_default_def no_options_def default_service_def EmailService_def)
  have h3: "failing_start 1 = clean_world"
    by (simp add: failing_start_def clean_world_def)
  have h4: "\<forall>k. failing_delete (failing_start k) = (Inl too_many, failing_after k)"
    by (simp add: call failing_after_def)
  have h5: "\<forall>k. failing_start (Suc (Suc k)) = (failing_after (Suc k))\<lparr>trace := trace (failing_after (Suc k)) @
            [Logged (AttemptFailed (Suc k) (message too_many)), Slept (1000 * 2 ^ k)]\<rparr>"
    by (simp add: failing_start_def failing_after_def)
  have h6: "status too_many = Some 429"
    by (simp add: too_many_def)
  have h7: "\<forall>reqs. \<exists>m. always_limited reqs = Failure \<lparr>message = m, status = Some 429\<rparr>"
    by (simp add: always_limited_def too_many_def)
  have waits: "\<forall>k. 1 \<le> k \<and> k < 3 \<longrightarrow>
          failing_start (Suc k) = (failing_after k)\<lparr>trace := trace (failing_after k) @
            [Logged (AttemptFailed k (message too_many)),
             Slept (if status too_many = Some 429 then 1000 * 2 ^ (k - 1) else 1000)]\<rparr>"
  proof (intro allI impI)
    fix k :: nat
    assume "1 \<le> k \<and> k < 3"
    then obtain j where "k = Suc j"
      by (cases k) auto
    with h5 h6 show "failing_start (Suc k) = (failing_after k)\<lparr>trace := trace (failing_after k) @
            [Logged (AttemptFailed k (message too_many)),
             Slept (if status too_many = Some 429 then 1000 * 2 ^ (k - 1) else 1000)]\<rparr>"
      by simp
  qed
  have run: "withRetry (EmailService ?cfg) failing_delete no_options clean_world =
      (Inl \<lparr>message = ''Operation failed after '' @ show_nat 3 @ '' attempts: '' @ message too_many,
            status = None\<rparr>, failing_after 3)"
    using withRetry_exhausted [where n = 3 and delay = 1000 and options = no_options and cfg = ?cfg
        and start = failing_start and w = clean_world and apiCall = failing_delete
        and es = "\<lambda>k. too_many" and after = failing_after, THEN conjunct1]
      h1 h2 h3 h4 waits
    by (simp add: default_service_def)
  then have result: "withRetry default_service failing_delete no_options clean_world =
       (Inl \<lparr>message = ''Operation failed after 3 attempts: Request failed with status code 429'',
             status = None\<rparr>, failing_after 3)"
    by (simp add: default_service_def show_nat_3 too_many_def)
  have final: "trace (failing_after 3) =
       [Sent delete_request, Logged (AttemptFailed 1 (message too_many)), Slept 1000,
        Sent delete_request, Logged (AttemptFailed 2 (message too_many)), Slept 2000,
        Sent delete_request]"
    by (simp add: failing_after_def failing_start_def upt_rec)
  have particular: "\<exists>m w'. withRetry (EmailService \<lparr>cfg_maxRetries = Some 3, cfg_retryDelay = None\<rparr>)
          failing_delete no_options clean_world =
            (Inl \<lparr>message = ''Operation failed after 3 attempts: '' @ m, status = None\<rparr>, w')"
    using withRetry_exhausted [where p = always_limited and d = None
        and pth = "MessageById (Some (JStr ''m1''))" and token = "Some (JStr ''tok'')"
        and ?w0.0 = clean_world, THEN conjunct2] h7
    unfolding failing_delete_def by blast
  from h1 h2 h3 h4 h5 h6 h7 result final particular show ?thesis
    by blast
qed

subsection \<open>Creating an address\<close>

text \<open>
  Claim C3. The catch block of \<open>createEmailAddress\<close> maps the status of \<open>error.response\<close> to
  a message, but every error that reaches it is a fresh \<open>Error\<close> made by \<open>withRetry\<close> or by
  \<open>getAvailableDomain\<close>, which has no response (\<open>createEmailAddress_failure_generic\<close>). With a
  provider that answers every \<open>POST /accounts\<close> with the status 422, the call fails with the
  generic message, not with the one for an invalid address format.
\<close>

theorem createEmailAddress_status_lost:
  "fst (createEmailAddress default_service rejecting sample_draws None clean_world) =
     Inl \<lparr>message = ''Failed to create email address: Operation failed after 5 attempts: Request failed with status code 422. Please check your internet connection and try again.'',
          status = None\<rparr>"
proof -
  let ?address = "Generated (username sample_draws) (Some (JStr ''example.com''))"
  let ?call = "account_call rejecting ?address (Some (JStr ''Password123!''))"
  have "fst (retry_loop 5 3000 ?call 1 w) = Inl (exhausted 5 unprocessable)" for w
    by (rule retry_loop_same_error) (simp_all add: rejecting_accounts)
  then have "fst (withRetry default_service ?call create_options w) = Inl (exhausted 5 unprocessable)" for w
    by (simp add: withRetry_def create_options_def or_default_def)
  then show ?thesis
    by (simp add: createEmailAddress_def rejecting_domains Let_def split_beta
        create_failure_def exhausted_def Error_def unprocessable_def show_nat_5 split: sum.splits)
qed

text \<open>
  Claim C7. Whatever doubles in \<open>[0, 1)\<close> \<open>Math.random()\<close> returns, the username has
  between 12 and 16 characters, all of them lowercase ASCII letters, that is, it matches
  \<open>^[a-z]{12,16}$\<close>. Its length is chosen by the first random number \<open>x\<close> alone, through
  the double nearest to \<open>5 * x\<close>: it is \<open>12 + k\<close> when \<open>5 * x\<close> lies in \<open>[k, k + 1)\<close> and is
  still below \<open>k + 1\<close> when one part in \<open>2 ^ 53\<close> is added to it, and it is \<open>12 + k\<close> only
  when \<open>5 * x\<close> is below \<open>k + 1\<close> and reaches \<open>k\<close> when one part in \<open>2 ^ 53\<close> is added to it.
  So the five lengths belong to five intervals of \<open>x\<close> of the same width, up to the
  rounding of one product of doubles at their upper ends.
\<close>

theorem username_lowercase:
  assumes doubles: "\<forall>i. unit_double (rnd i)"
  shows "12 \<le> length (username rnd) \<and> length (username rnd) \<le> 16
     \<and> set (username rnd) \<subseteq> set ''abcdefghijklmnopqrstuvwxyz''
     \<and> (\<forall>k. (real k \<le> 5 * draw_value (rnd 0)
              \<and> 5 * draw_value (rnd 0) * (1 + 1 / 2 ^ 53) < real k + 1
              \<longrightarrow> length (username rnd) = 12 + k)
           \<and> (length (username rnd) = 12 + k
              \<longrightarrow> real k \<le> 5 * draw_value (rnd 0) * (1 + 1 / 2 ^ 53)
                \<and> 5 * draw_value (rnd 0) < real k + 1))"
proof -
  have len: "length (username rnd) = floor_times (rnd 0) 5 + 12"
    by (simp add: username_def Let_def)
  have bound: "floor_times (rnd 0) 5 < 5"
    using doubles by (intro floor_times_less) simp_all
  have chars: "set (username rnd) \<subseteq> set ''abcdefghijklmnopqrstuvwxyz''"
  proof
    fix c assume "c \<in> set (username rnd)"
    then obtain i where c: "c = char_of (97 + floor_times (rnd (Suc i)) 26)"
      by (auto simp: username_def Let_def)
    have "floor_times (rnd (Suc i)) 26 < 26"
      using doubles by (intro floor_times_less) simp_all
    then show "c \<in> set ''abcdefghijklmnopqrstuvwxyz''"
      unfolding c by (rule letter_of)
  qed
  have interval: "(real k \<le> 5 * draw_value (rnd 0)
              \<and> 5 * draw_value (rnd 0) * (1 + 1 / 2 ^ 53) < real k + 1
              \<longrightarrow> length (username rnd) = 12 + k)
           \<and> (length (username rnd) = 12 + k
              \<longrightarrow> real k \<le> 5 * draw_value (rnd 0) * (1 + 1 / 2 ^ 53)
                \<and> 5 * draw_value (rnd 0) < real k + 1)" for k
    using floor_times_sharp [of "rnd 0" 5 k] doubles by (auto simp: len)
  from len bound chars interval show ?thesis
    by simp
qed

theorem username_lowercase_witness:
  "(\<forall>i. unit_double (sample_draws i))
   \<and> username sample_draws = ''nnnnnnnnnnnnnnn''
   \<and> length (username sample_draws) = 12 + 3
   \<and> 5 * draw_value (sample_draws 0) < 3
   \<and> real 3 \<le> 5 * draw_value (sample_draws 0) * (1 + 1 / 2 ^ 53)
   \<and> 5 * draw_value (sample_draws 0) < real 3 + 1
   \<and> (\<forall>i. unit_double (half_draws i))
   \<and> real 2 \<le> 5 * draw_value (half_draws 0)
   \<and> 5 * draw_value (half_draws 0) * (1 + 1 / 2 ^ 53) < real 2 + 1
   \<and> length (username half_draws) = 12 + 2"
proof -
  have h: "\<forall>i. unit_double (sample_draws i)"
    by (simp add: sample_draws_def unit_double_def one_half_def three_fifths_def)
  have n: "char_of (110 :: nat) = CHR ''n''"
    by code_simp
  have u: "username sample_draws = ''nnnnnnnnnnnnnnn''"
    by (simp add: username_def sample_draws_def Let_def floor_times_half floor_times_three_fifths
        upt_rec n)
  then have l: "length (username sample_draws) = 12 + 3"
    by simp
  have below: "5 * draw_value (sample_draws 0) < 3"
    by (simp add: sample_draws_def draw_value_def three_fifths_def)
  from username_lowercase [OF h] l
  have around: "real 3 \<le> 5 * draw_value (sample_draws 0) * (1 + 1 / 2 ^ 53)
      \<and> 5 * draw_value (sample_draws 0) < real 3 + 1"
    by blast
  have g: "\<forall>i. unit_double (half_draws i)"
    by (simp add: half_draws_def unit_double_def one_half_def)
  have inside: "real 2 \<le> 5 * draw_value (half_draws 0)
      \<and> 5 * draw_value (half_draws 0) * (1 + 1 / 2 ^ 53) < real 2 + 1"
    by (simp add: half_draws_def draw_value_def one_half_def)
  with username_lowercase [OF g] have "length (username half_draws) = 12 + 2"
    by blast
  with h u l below around g inside show ?thesis
    by blast
qed

subsection \<open>Reading messages\<close>

text \<open>
  Claim C8. \<open>getEmails\<close> and \<open>getEmailContent\<close> leave no \<open>Authorization\<close> entry in the
  default headers, whether they return or fail, and this is all they send: first the
  login, \<open>POST /token\<close> with the address and the password, under the default headers of the
  start of the call; when the login fails, or the token cannot be read from its answer,
  nothing more; otherwise one request, \<open>GET /messages\<close> with page 1 and limit 20 for
  \<open>getEmails\<close> and \<open>GET /messages/{messageId}\<close> for \<open>getEmailContent\<close>, whose
  \<open>Authorization\<close> header is \<open>Bearer\<close> with the token of the login's answer, and nothing
  after it.
\<close>

theorem bearer_header_cleared:
  "authorization (snd (getEmails p address password w)) = None
   \<and> authorization (snd (getEmailContent p messageId address password w)) = None
   \<and> (p (sent_requests (trace w) @
          [\<lparr>http_method = POST, path = Token, body = Some (Given address, password),
            params = [], auth = authorization w\<rparr>]) = Failure e
      \<longrightarrow> trace (snd (getEmails p address password w)) =
            trace w @ [Sent \<lparr>http_method = POST, path = Token, body = Some (Given address, password),
                              params = [], auth = authorization w\<rparr>]
        \<and> trace (snd (getEmailContent p messageId address password w)) =
            trace w @ [Sent \<lparr>http_method = POST, path = Token, body = Some (Given address, password),
                              params = [], auth = authorization w\<rparr>])
   \<and> (p (sent_requests (trace w) @
          [\<lparr>http_method = POST, path = Token, body = Some (Given address, password),
            params = [], auth = authorization w\<rparr>]) = Response authData
      \<and> member authData ''token'' = Inl e
      \<longrightarrow> trace (snd (getEmails p address password w)) =
            trace w @ [Sent \<lparr>http_method = POST, path = Token, body = Some (Given address, password),
                              params = [], auth = authorization w\<rparr>]
        \<and> trace (snd (getEmailContent p messageId address password w)) =
            trace w @ [Sent \<lparr>http_method = POST, path = Token, body = Some (Given address, password),
                              params = [], auth = authorization w\<rparr>])
   \<and> (p (sent_requests (trace w) @
          [\<lparr>http_method = POST, path = Token, body = Some (Given address, password),
            params = [], auth = authorization w\<rparr>]) = Response authData
      \<and> member authData ''token'' = Inr token
      \<longrightarrow> trace (snd (getEmails p address password w)) =
            trace w @ [Sent \<lparr>http_method = POST, path = Token, body = Some (Given address, password),
                              params = [], auth = authorization w\<rparr>,
                       Sent \<lparr>http_method = GET, path = Messages, body = None,
                              params = [(''page'', 1), (''limit'', 20)], auth = Some (Bearer token)\<rparr>]
        \<and> trace (snd (getEmailContent p messageId address password w)) =
            trace w @ [Sent \<lparr>http_method = POST, path = Token, body = Some (Given address, password),
                              params = [], auth = authorization w\<rparr>,
                       Sent \<lparr>http_method = GET, path = MessageById messageId, body = None,
                              params = [], auth = Some (Bearer token)\<rparr>])"
proof -
  let ?login = "\<lparr>http_method = POST, path = Token, body = Some (Given address, password),
            params = [], auth = authorization w\<rparr>"
  let ?w1 = "w\<lparr>trace := trace w @ [Sent ?login]\<rparr>"
  have login: "send p POST Token (Some (Given address, password)) [] None w =
      (case p (sent_requests (trace w) @ [?login]) of Response data \<Rightarrow> Inr data | Failure e \<Rightarrow> Inl e, ?w1)"
    by (simp add: send_def Let_def sent_requests_append)
  have fetch: "snd (send p GET pth None prms None (setAuthToken token ?w1)) =
      \<lparr>authorization = Some (Bearer token),
       trace = trace w @ [Sent ?login, Sent \<lparr>http_method = GET, path = pth, body = None,
                              params = prms, auth = Some (Bearer token)\<rparr>]\<rparr>" for pth prms token
    by (simp add: send_def Let_def setAuthToken_def)
  have cleared: "authorization (snd (getEmails p address password w)) = None"
    "authorization (snd (getEmailContent p messageId address password w)) = None"
    by (simp_all add: getEmails_world getEmailContent_world clearAuthToken_def
        split: prod.splits sum.splits)
  have failed: "trace (snd (getEmails p address password w)) = trace w @ [Sent ?login]
        \<and> trace (snd (getEmailContent p messageId address password w)) = trace w @ [Sent ?login]"
    if "p (sent_requests (trace w) @ [?login]) = Failure e" for e
    using that by (simp add: getEmails_world getEmailContent_world login clearAuthToken_def)
  have unreadable: "trace (snd (getEmails p address password w)) = trace w @ [Sent ?login]
        \<and> trace (snd (getEmailContent p messageId address password w)) = trace w @ [Sent ?login]"
    if "p (sent_requests (trace w) @ [?login]) = Response authData" "member authData ''token'' = Inl e"
    for authData e
    using that by (simp add: getEmails_world getEmailContent_world login clearAuthToken_def)
  have authenticated: "trace (snd (getEmails p address password w)) =
            trace w @ [Sent ?login,
                       Sent \<lparr>http_method = GET, path = Messages, body = None,
                              params = [(''page'', 1), (''limit'', 20)], auth = Some (Bearer token)\<rparr>]
        \<and> trace (snd (getEmailContent p messageId address password w)) =
            trace w @ [Sent ?login,
                       Sent \<lparr>http_method = GET, path = MessageById messageId, body = None,
                              params = [], auth = Some (Bearer token)\<rparr>]"
    if "p (sent_requests (trace w) @ [?login]) = Response authData" "member authData ''token'' = Inr token"
    for authData token
    using that by (simp add: getEmails_world getEmailContent_world login fetch clearAuthToken_def)
  from cleared failed unreadable authenticated show ?thesis
    by blast
qed

text \<open>
  Both calls on a clean client, with a provider that refuses the login, one that answers
  it with \<open>null\<close> and one that answers it with the token \<open>tok\<close>.
\<close>

theorem bearer_header_cleared_witness:
  "always_limited (sent_requests (trace clean_world) @ [sample_login]) = Failure too_many
   \<and> trace (snd (getEmails always_limited (Some (JStr ''a@x.io'')) (Some (JStr ''pw'')) clean_world)) =
       [Sent sample_login]
   \<and> trace (snd (getEmailContent always_limited (Some (JStr ''m1'')) (Some (JStr ''a@x.io''))
         (Some (JStr ''pw'')) clean_world)) = [Sent sample_login]
   \<and> null_login (sent_requests (trace clean_world) @ [sample_login]) = Response (Some JNull)
   \<and> member (Some JNull) ''token'' = Inl (type_error ''null'' ''token'')
   \<and> trace (snd (getEmails null_login (Some (JStr ''a@x.io'')) (Some (JStr ''pw'')) clean_world)) =
       [Sent sample_login]
   \<and> trace (snd (getEmailContent null_login (Some (JStr ''m1'')) (Some (JStr ''a@x.io''))
         (Some (JStr ''pw'')) clean_world)) = [Sent sample_login]
   \<and> wrapper_less (sent_requests (trace clean_world) @ [sample_login]) =
       Response (Some (JObj [(''token'', JStr ''tok'')]))
   \<and> member (Some (JObj [(''token'', JStr ''tok'')])) ''token'' = Inr (Some (JStr ''tok''))
   \<and> trace (snd (getEmails wrapper_less (Some (JStr ''a@x.io'')) (Some (JStr ''pw'')) clean_world)) =
       [Sent sample_login,
        Sent \<lparr>http_method = GET, path = Messages, body = None,
               params = [(''page'', 1), (''limit'', 20)], auth = Some (Bearer (Some (JStr ''tok'')))\<rparr>]
   \<and> trace (snd (getEmailContent wrapper_less (Some (JStr ''m1'')) (Some (JStr ''a@x.io''))
         (Some (JStr ''pw'')) clean_world)) =
       [Sent sample_login,
        Sent \<lparr>http_method = GET, path = MessageById (Some (JStr ''m1'')), body = None,
               params = [], auth = Some (Bearer (Some (JStr ''tok'')))\<rparr>]
   \<and> authorization (snd (getEmails wrapper_less (Some (JStr ''a@x.io'')) (Some (JStr ''pw'')) clean_world)) = None
   \<and> authorization (snd (getEmailContent wrapper_less (Some (JStr ''m1'')) (Some (JStr ''a@x.io''))
         (Some (JStr ''pw'')) clean_world)) = None"
proof -
  let ?a = "Some (JStr ''a@x.io'')" and ?pw = "Some (JStr ''pw'')" and ?m = "Some (JStr ''m1'')"
  have login: "\<lparr>http_method = POST, path = Token, body = Some (Given ?a, ?pw),
            params = [], auth = authorization clean_world\<rparr> = sample_login"
    and start: "trace clean_world = []"
    by (simp_all add: sample_login_def clean_world_def)
  have h1: "always_limited (sent_requests (trace clean_world) @ [sample_login]) = Failure too_many"
    by (simp add: always_limited_def)
  have h2: "null_login (sent_requests (trace clean_world) @ [sample_login]) = Response (Some JNull)"
    by (simp add: null_login_def)
  have h3: "member (Some JNull) ''token'' = Inl (type_error ''null'' ''token'')"
    by simp
  have h4: "wrapper_less (sent_requests (trace clean_world) @ [sample_login]) =
       Response (Some (JObj [(''token'', JStr ''tok'')]))"
    by (simp add: wrapper_less_def sample_login_def)
  have h5: "member (Some (JObj [(''token'', JStr ''tok'')])) ''token'' = Inr (Some (JStr ''tok''))"
    by simp
  note facts = bearer_header_cleared [where address = ?a and password = ?pw and w = clean_world
      and messageId = ?m, unfolded login start append_Nil]
  from facts [where p = always_limited and e = too_many] h1
  have failed: "trace (snd (getEmails always_limited ?a ?pw clean_world)) = [Sent sample_login]
      \<and> trace (snd (getEmailContent always_limited ?m ?a ?pw clean_world)) = [Sent sample_login]"
    using start by simp
  from facts [where p = null_login and authData = "Some JNull" and e = "type_error ''null'' ''token''"] h2 h3
  have unreadable: "trace (snd (getEmails null_login ?a ?pw clean_world)) = [Sent sample_login]
      \<and> trace (snd (getEmailContent null_login ?m ?a ?pw clean_world)) = [Sent sample_login]"
    using start by simp
  from facts [where p = wrapper_less and authData = "Some (JObj [(''token'', JStr ''tok'')])"
      and token = "Some (JStr ''tok'')"] h4 h5
  have authenticated: "trace (snd (getEmails wrapper_less ?a ?pw clean_world)) =
       [Sent sample_login,
        Sent \<lparr>http_method = GET, path = Messages, body = None,
               params = [(''page'', 1), (''limit'', 20)], auth = Some (Bearer (Some (JStr ''tok'')))\<rparr>]
      \<and> trace (snd (getEmailContent wrapper_less ?m ?a ?pw clean_world)) =
       [Sent sample_login,
        Sent \<lparr>http_method = GET, path = MessageById ?m, body = None,
               params = [], auth = Some (Bearer (Some (JStr ''tok'')))\<rparr>]
      \<and> authorization (snd (getEmails wrapper_less ?a ?pw clean_world)) = None
      \<and> authorization (snd (getEmailContent wrapper_less ?m ?a ?pw clean_world)) = None"
    using start by simp
  from h1 h2 h3 h4 h5 failed unreadable authenticated show ?thesis
    by blast
qed

text \<open>
  Claim C9. When the login is answered and its token can be read, and the answer to
  \<open>GET /messages\<close> is a body that is not an object with an array under \<open>hydra:member\<close>, or
  one whose array is empty, \<open>getEmails\<close> returns the empty list.
\<close>

theorem getEmails_malformed_empty:
  assumes login: "p (sent_requests (trace w) @
            [\<lparr>http_method = POST, path = Token, body = Some (Given address, password),
              params = [], auth = authorization w\<rparr>]) = Response authData"
      and token: "member authData ''token'' = Inr token"
      and listing: "p (sent_requests (trace w) @
            [\<lparr>http_method = POST, path = Token, body = Some (Given address, password),
              params = [], auth = authorization w\<rparr>,
             \<lparr>http_method = GET, path = Messages, body = None,
              params = [(''page'', 1), (''limit'', 20)], auth = Some (Bearer token)\<rparr>]) = Response data"
      and malformed: "\<forall>ps msgs. data = Some (JObj ps) \<and> map_of ps ''hydra:member'' = Some (JArr msgs)
                        \<longrightarrow> msgs = []"
  shows "fst (getEmails p address password w) = Inr []"
proof -
  let ?login = "\<lparr>http_method = POST, path = Token, body = Some (Given address, password),
              params = [], auth = authorization w\<rparr>"
  let ?w1 = "w\<lparr>trace := trace w @ [Sent ?login]\<rparr>"
  let ?fetch = "\<lparr>http_method = GET, path = Messages, body = None,
              params = [(''page'', 1), (''limit'', 20)], auth = Some (Bearer token)\<rparr>"
  let ?w2 = "(setAuthToken token ?w1)\<lparr>trace := trace w @ [Sent ?login, Sent ?fetch]\<rparr>"
  have s1: "send p POST Token (Some (Given address, password)) [] None w = (Inr authData, ?w1)"
    using login by (simp add: send_def Let_def sent_requests_append)
  have s2: "send p GET Messages None [(''page'', 1), (''limit'', 20)] None (setAuthToken token ?w1)
      = (Inr data, ?w2)"
    using listing by (simp add: send_def Let_def sent_requests_append setAuthToken_def)
  have members: "\<exists>other. member data ''hydra:member'' = Inr other
      \<and> (array_of other = None \<or> array_of other = Some [])" if "truthy data"
  proof -
    from member_truthy [OF that, of "''hydra:member''"] obtain other where
      other: "member data ''hydra:member'' = Inr other"
        "\<forall>ps. data = Some (JObj ps) \<longrightarrow> other = map_of ps ''hydra:member''"
        "(\<forall>ps. data \<noteq> Some (JObj ps)) \<longrightarrow> other = None"
      by blast
    have "\<forall>msgs. other = Some (JArr msgs) \<longrightarrow> msgs = []"
      using other(2,3) malformed by (cases "\<exists>ps. data = Some (JObj ps)") auto
    then have "array_of other = None \<or> array_of other = Some []"
      by (rule array_of_empty_or_none)
    with other(1) show ?thesis
      by blast
  qed
  show ?thesis
  proof (cases "truthy data")
    case True
    from members [OF True] obtain other where
      "member data ''hydra:member'' = Inr other" "array_of other = None \<or> array_of other = Some []"
      by blast
    then show ?thesis
      using True by (auto simp: getEmails_def s1 s2 token Let_def)
  next
    case False
    then show ?thesis
      by (simp add: getEmails_def s1 s2 token Let_def)
  qed
qed

theorem getEmails_malformed_empty_witness:
  "wrapper_less (sent_requests (trace clean_world) @
            [\<lparr>http_method = POST, path = Token, body = Some (Given (Some (JStr ''a@x.io'')), Some (JStr ''pw'')),
              params = [], auth = authorization clean_world\<rparr>]) = Response (Some (JObj [(''token'', JStr ''tok'')]))
   \<and> member (Some (JObj [(''token'', JStr ''tok'')])) ''token'' = Inr (Some (JStr ''tok''))
   \<and> wrapper_less (sent_requests (trace clean_world) @
            [\<lparr>http_method = POST, path = Token, body = Some (Given (Some (JStr ''a@x.io'')), Some (JStr ''pw'')),
              params = [], auth = authorization clean_world\<rparr>,
             \<lparr>http_method = GET, path = Messages, body = None,
              params = [(''page'', 1), (''limit'', 20)], auth = Some (Bearer (Some (JStr ''tok'')))\<rparr>])
       = Response (Some (JObj [(''members'', JArr [])]))
   \<and> map_of [(''members'', JArr [])] ''hydra:member'' = None
   \<and> fst (getEmails wrapper_less (Some (JStr ''a@x.io'')) (Some (JStr ''pw'')) clean_world) = Inr []"
proof -
  have h1: "wrapper_less (sent_requests (trace clean_world) @
            [\<lparr>http_method = POST, path = Token, body = Some (Given (Some (JStr ''a@x.io'')), Some (JStr ''pw'')),
              params = [], auth = authorization clean_world\<rparr>]) = Response (Some (JObj [(''token'', JStr ''tok'')]))"
    by (simp add: wrapper_less_def clean_world_def)
  have h2: "member (Some (JObj [(''token'', JStr ''tok'')])) ''token'' = Inr (Some (JStr ''tok''))"
    by simp
  have h3: "wrapper_less (sent_requests (trace clean_world) @
            [\<lparr>http_method = POST, path = Token, body = Some (Given (Some (JStr ''a@x.io'')), Some (JStr ''pw'')),
              params = [], auth = authorization clean_world\<rparr>,
             \<lparr>http_method = GET, path = Messages, body = None,
              params = [(''page'', 1), (''limit'', 20)], auth = Some (Bearer (Some (JStr ''tok'')))\<rparr>])
       = Response (Some (JObj [(''members'', JArr [])]))"
    by (simp add: wrapper_less_def clean_world_def)
  have h4: "\<forall>ps msgs. Some (JObj [(''members'', JArr [])]) = Some (JObj ps) \<and> map_of ps ''hydra:member'' = Some (JArr msgs)
         \<longrightarrow> msgs = []"
    by simp
  have h5: "map_of [(''members'', JArr [])] ''hydra:member'' = None"
    by simp
  from getEmails_malformed_empty [OF h1 h2 h3 h4] h1 h2 h3 h5 show ?thesis
    by blast
qed

subsection \<open>Deleting\<close>

text \<open>
  Claim C10. When the id or the token is falsy, \<open>deleteEmail\<close> and \<open>deleteAccount\<close> fail
  with the message that both are required and leave the state as it was: no request is
  sent, nothing is logged and no timer is waited for, so the retry loop is not entered.
\<close>

theorem delete_requires_arguments:
  "\<not> truthy ident \<or> \<not> truthy token \<Longrightarrow>
     deleteEmail svc p ident token w =
       (Inl \<lparr>message = ''Failed to delete email: Email ID and token are required'', status = None\<rparr>, w)
     \<and> deleteAccount svc p ident token w =
       (Inl \<lparr>message = ''Failed to delete account: Account ID and token are required'', status = None\<rparr>, w)"
  by (auto simp: deleteEmail_def deleteAccount_def Error_def)

theorem delete_requires_arguments_witness:
  "\<not> truthy None
   \<and> deleteEmail (EmailService \<lparr>cfg_maxRetries = None, cfg_retryDelay = None\<rparr>) (\<lambda>reqs. Response None)
        None (Some (JStr ''tok'')) \<lparr>authorization = None, trace = []\<rparr> =
       (Inl \<lparr>message = ''Failed to delete email: Email ID and token are required'', status = None\<rparr>,
        \<lparr>authorization = None, trace = []\<rparr>)
   \<and> deleteAccount (EmailService \<lparr>cfg_maxRetries = None, cfg_retryDelay = None\<rparr>) (\<lambda>reqs. Response None)
        None (Some (JStr ''tok'')) \<lparr>authorization = None, trace = []\<rparr> =
       (Inl \<lparr>message = ''Failed to delete account: Account ID and token are required'', status = None\<rparr>,
        \<lparr>authorization = None, trace = []\<rparr>)"
proof -
  have h: "\<not> truthy None \<or> \<not> truthy (Some (JStr ''tok''))"
    by simp
  have missing: "\<not> truthy None"
    by simp
  from delete_requires_arguments [OF h] missing show ?thesis
    by blast
qed

end
